theory Spec2Isabelle
  imports Complex_Main
begin

section \<open>Percent-of-normal snow water equivalent: a model of \<open>get_swe_normals.py\<close>\<close>

text \<open>
  The script reads a year and a month, opens two remote gridded time series (SNODAS and
  Copernicus), averages each series over the first-of-month anchors of earlier years
  (\<open>get_normals\<close>), divides the requested month's grid by that average
  (\<open>get_percent_of_normal\<close>) and writes one raster per series (\<open>main\<close>).

  Every source function is a HOL function of the same name. What a function does besides
  returning a value is explicit: an exception is the \<open>Inl\<close> side of a sum, the console,
  the remote store and the written files are fields of a \<open>world\<close> record that is passed
  along.
\<close>

subsection \<open>Exceptions\<close>

datatype error =
    ValueError              \<comment> \<open>\<open>dt.datetime\<close> with a field out of range, \<open>int\<close> of a non-number\<close>
  | OutOfBoundsDatetime     \<comment> \<open>pandas: a time outside its nanosecond range\<close>
  | KeyError                \<comment> \<open>\<open>.sel\<close> of a label, or a variable name, that is not there\<close>
  | TypeError               \<comment> \<open>\<open>str + None\<close>\<close>
  | EOFError                \<comment> \<open>\<open>input()\<close> at the end of the input\<close>
  | DataSourceUnavailable   \<comment> \<open>whatever the storage client raises when it cannot read\<close>

subsection \<open>Timestamps\<close>

text \<open>
  A point in time as \<open>dt.datetime\<close> and the series' \<open>datetime64[ns]\<close> index have it:
  calendar year, month, day, hour, and the nanoseconds past the hour (zero in every
  timestamp the script builds, since it passes year, month, day and hour only).
\<close>

record timestamp =
  ts_year :: int
  ts_month :: int
  ts_day :: int
  ts_hour :: int
  ts_subhour :: nat

text \<open>Chronological order is the lexicographic order of the fields.\<close>

definition ts_less :: "timestamp \<Rightarrow> timestamp \<Rightarrow> bool" where
  "ts_less a b \<longleftrightarrow>
     ts_year a < ts_year b \<or> (ts_year a = ts_year b \<and>
       (ts_month a < ts_month b \<or> (ts_month a = ts_month b \<and>
         (ts_day a < ts_day b \<or> (ts_day a = ts_day b \<and>
           (ts_hour a < ts_hour b \<or> (ts_hour a = ts_hour b \<and>
             ts_subhour a < ts_subhour b)))))))"

definition ts_le :: "timestamp \<Rightarrow> timestamp \<Rightarrow> bool" where
  "ts_le a b \<longleftrightarrow> ts_less a b \<or> a = b"

definition is_leap :: "int \<Rightarrow> bool" where
  "is_leap y \<longleftrightarrow> y mod 4 = 0 \<and> (y mod 100 \<noteq> 0 \<or> y mod 400 = 0)"

definition days_in_month :: "int \<Rightarrow> int \<Rightarrow> int" where
  "days_in_month y m =
     (if m = 2 then (if is_leap y then 29 else 28)
      else if m = 4 \<or> m = 6 \<or> m = 9 \<or> m = 11 then 30 else 31)"

text \<open>
  \<open>dt.datetime(year, month, day, hour)\<close>: Python raises \<open>ValueError\<close> unless
  \<open>1 \<le> year \<le> 9999\<close>, \<open>1 \<le> month \<le> 12\<close>, the day exists in that month and
  \<open>0 \<le> hour \<le> 23\<close>.
\<close>

definition datetime :: "int \<Rightarrow> int \<Rightarrow> int \<Rightarrow> int \<Rightarrow> error + timestamp" where
  "datetime y m d h =
     (if 1 \<le> y \<and> y \<le> 9999 \<and> 1 \<le> m \<and> m \<le> 12 \<and> 1 \<le> d \<and> d \<le> days_in_month y m
         \<and> 0 \<le> h \<and> h \<le> 23
      then Inr \<lparr>ts_year = y, ts_month = m, ts_day = d, ts_hour = h, ts_subhour = 0\<rparr>
      else Inl ValueError)"

subsection \<open>\<open>pd.date_range(start, end, freq="AS")\<close>\<close>

text \<open>
  pandas stores times as nanoseconds since 1970 in 64 bits, so a \<open>Timestamp\<close> lies
  between 1677-09-21 00:12:43.145224193 and 2262-04-11 23:47:16.854775807; converting a
  \<open>datetime\<close> outside that range raises \<open>OutOfBoundsDatetime\<close>.
\<close>

definition Timestamp_min :: timestamp where
  "Timestamp_min =
     \<lparr>ts_year = 1677, ts_month = 9, ts_day = 21, ts_hour = 0, ts_subhour = 763145224193\<rparr>"

definition Timestamp_max :: timestamp where
  "Timestamp_max =
     \<lparr>ts_year = 2262, ts_month = 4, ts_day = 11, ts_hour = 23, ts_subhour = 2836854775807\<rparr>"

definition in_bounds :: "timestamp \<Rightarrow> bool" where
  "in_bounds t \<longleftrightarrow> ts_le Timestamp_min t \<and> ts_le t Timestamp_max"

text \<open>
  The frequency alias \<open>"AS"\<close> is pandas' \<open>YearBegin\<close> offset with its default month,
  January (\<open>"AS"\<close> is \<open>"AS-JAN"\<close>): a time is on the offset when its date is a 1 January,
  whatever its time of day. \<open>date_range\<close> first rolls a start that is not on the offset
  forward to the next 1 January, keeping the time of day, and then steps one year at a
  time while the current time is not after the end. Every time it computes is a
  \<open>Timestamp\<close> and must lie in the range: the rolled start, and the step after each date it
  yields other than the end itself (so also the one step past the last date).
\<close>

definition on_offset_AS :: "timestamp \<Rightarrow> bool" where
  "on_offset_AS t \<longleftrightarrow> ts_month t = 1 \<and> ts_day t = 1"

definition rollforward_AS :: "timestamp \<Rightarrow> timestamp" where
  "rollforward_AS t =
     (if on_offset_AS t then t else t\<lparr>ts_year := ts_year t + 1, ts_month := 1, ts_day := 1\<rparr>)"

definition date_range_AS :: "timestamp \<Rightarrow> timestamp \<Rightarrow> error + timestamp list" where
  "date_range_AS start end =
     (if \<not> in_bounds start \<or> \<not> in_bounds end then Inl OutOfBoundsDatetime
      else let first = rollforward_AS start in
        if \<not> in_bounds first then Inl OutOfBoundsDatetime
        else let dates = filter (\<lambda>t. ts_le t end)
                           (map (\<lambda>y. first\<lparr>ts_year := y\<rparr>) [ts_year first .. ts_year end])
          in if dates \<noteq> [] \<and> last dates \<noteq> end \<and>
                \<not> in_bounds ((last dates)\<lparr>ts_year := ts_year (last dates) + 1\<rparr>)
             then Inl OutOfBoundsDatetime
             else Inr dates)"

subsection \<open>Gridded time series\<close>

text \<open>
  A cell of a series holds a measured number or the missing value NaN (\<open>None\<close>); a finite
  number is read as the real it denotes, so rounding is not part of the model. A grid is a
  list of rows. An \<open>xarray.DataArray\<close> with dimensions (time, y, x) is its spatial shape
  and its timesteps in index order, each a timestamp with the grid observed then; the
  shape is a field of its own because an array keeps it when no timestep is left.
\<close>

type_synonym cell = "real option"
type_synonym grid = "cell list list"

record dataarray =
  da_ny :: nat
  da_nx :: nat
  da_steps :: "(timestamp \<times> grid) list"

text \<open>
  \<open>.mean(dim='time')\<close>: xarray skips NaN by default (\<open>skipna\<close>), so a cell of the result
  is the arithmetic mean of the numbers found at that cell, and NaN when there is none
  (also when no timestep is left at all).
\<close>

definition nanmean :: "cell list \<Rightarrow> cell" where
  "nanmean vs =
     (let xs = [x. Some x \<leftarrow> vs]
      in if xs = [] then None else Some (sum_list xs / real (length xs)))"

definition mean_time :: "nat \<Rightarrow> nat \<Rightarrow> grid list \<Rightarrow> grid" where
  "mean_time ny nx gs =
     map (\<lambda>i. map (\<lambda>j. nanmean (map (\<lambda>g. g ! i ! j) gs)) [0 ..< nx]) [0 ..< ny]"

subsection \<open>\<open>get_normals\<close>\<close>

text \<open>
  The candidate anchors: \<open>pd.date_range\<close> from the first of the given month of 2008 at
  05:00 (SNODAS) or of 2000 at 00:00 (Copernicus) to the first of that month of the year
  before the requested one, with \<open>freq="AS"\<close>.
\<close>

definition month_firsts :: "int \<Rightarrow> int \<Rightarrow> bool \<Rightarrow> error + timestamp list" where
  "month_firsts year month snodas =
     (if snodas then
        (case datetime 2008 month 1 5 of Inl e \<Rightarrow> Inl e | Inr start \<Rightarrow>
           (case datetime (year - 1) month 1 5 of Inl e \<Rightarrow> Inl e | Inr end \<Rightarrow>
              date_range_AS start end))
      else
        (case datetime 2000 month 1 0 of Inl e \<Rightarrow> Inl e | Inr start \<Rightarrow>
           (case datetime (year - 1) month 1 0 of Inl e \<Rightarrow> Inl e | Inr end \<Rightarrow>
              date_range_AS start end)))"

text \<open>
  \<open>da.sel(time=da.time.isin(month_firsts))\<close> keeps the timesteps whose timestamp is one of
  the candidates, in the order of the series.
\<close>

definition sel_isin :: "dataarray \<Rightarrow> timestamp list \<Rightarrow> (timestamp \<times> grid) list" where
  "sel_isin da ts = filter (\<lambda>(t, g). t \<in> set ts) (da_steps da)"

definition get_normals :: "dataarray \<Rightarrow> int \<Rightarrow> int \<Rightarrow> bool \<Rightarrow> error + grid" where
  "get_normals da year month snodas =
     (case month_firsts year month snodas of
        Inl e \<Rightarrow> Inl e
      | Inr mf \<Rightarrow> Inr (mean_time (da_ny da) (da_nx da) (map snd (sel_isin da mf))))"

subsection \<open>\<open>get_percent_of_normal\<close>\<close>

text \<open>
  The result of a floating-point operation is a finite number, an infinity or NaN. On
  finite operands an operation returns the exact result rounded: \<open>rnd\<close> maps the exact real
  to what the arithmetic returns, the representable number next to it or an infinity
  when it overflows. The rounding is a parameter of the model, so that what is proved
  holds for every floating-point format and rounding mode, IEEE binary64 as numpy uses it
  included. numpy gives NaN when an operand is NaN and for \<open>0 / 0\<close>, and an infinity for
  \<open>x / 0\<close> with \<open>x \<noteq> 0\<close> (its sign, which follows the signs of \<open>x\<close> and of the zero, is
  not modelled).
\<close>

datatype fval = Fin real | Infinite | NaN

type_synonym rounding = "real \<Rightarrow> fval"

definition fdiv :: "rounding \<Rightarrow> cell \<Rightarrow> cell \<Rightarrow> fval" where
  "fdiv rnd a b =
     (case (a, b) of
        (Some x, Some y) \<Rightarrow>
          (if y \<noteq> 0 then rnd (x / y) else if x = 0 then NaN else Infinite)
      | _ \<Rightarrow> NaN)"

definition fmul :: "rounding \<Rightarrow> fval \<Rightarrow> real \<Rightarrow> fval" where
  "fmul rnd v k =
     (case v of
        Fin x \<Rightarrow> rnd (x * k)
      | Infinite \<Rightarrow> (if k = 0 then NaN else Infinite)
      | NaN \<Rightarrow> NaN)"

type_synonym pgrid = "fval list list"

text \<open>
  \<open>(target / normals) * 100\<close> on two grids. The grids of the model carry no coordinate
  labels, so they are combined by position, and two grids that differ in shape are what
  xarray refuses to align for dimensions without labels (\<open>ValueError\<close>); the grid of a
  timestep and the normals of the same array have the same shape.
\<close>

definition percent_of :: "rounding \<Rightarrow> grid \<Rightarrow> grid \<Rightarrow> error + pgrid" where
  "percent_of rnd target normals =
     (if map length target \<noteq> map length normals then Inl ValueError
      else Inr (map2 (map2 (\<lambda>a b. fmul rnd (fdiv rnd a b) 100)) target normals))"

text \<open>
  \<open>da.sel(time=first_of_month)\<close>: the timestep with exactly that label; pandas raises
  \<open>KeyError\<close> when the index has no such label. The time index of a series has no
  repeated label; the statements about a label that is present assume so (\<open>distinct\<close>),
  and the model reads the first match.
\<close>

definition sel_time :: "dataarray \<Rightarrow> timestamp \<Rightarrow> error + grid" where
  "sel_time da t =
     (case filter (\<lambda>(t', g). t' = t) (da_steps da) of
        [] \<Rightarrow> Inl KeyError
      | (t', g) # _ \<Rightarrow> Inr g)"

definition get_percent_of_normal ::
    "rounding \<Rightarrow> dataarray \<Rightarrow> grid \<Rightarrow> int \<Rightarrow> int \<Rightarrow> bool \<Rightarrow> error + pgrid" where
  "get_percent_of_normal rnd da normals year month snodas =
     (case (if snodas then datetime year month 1 5 else datetime year month 1 0) of
        Inl e \<Rightarrow> Inl e
      | Inr first_of_month \<Rightarrow>
         (case sel_time da first_of_month of
            Inl e \<Rightarrow> Inl e
          | Inr da_this_year_first_of_month \<Rightarrow>
              percent_of rnd da_this_year_first_of_month normals))"

subsection \<open>The temporal anchor conventions\<close>

text \<open>
  The two conventions the script hard-codes behind its \<open>snodas\<close> flag: the regional
  series (SNODAS, \<open>snodas = True\<close>) is observed at 05:00 and starts in 2008, the global one
  (Copernicus) at 00:00 and starts in 2000. \<open>anchor y m snodas\<close> is the timestamp
  \<open>dt.datetime(y, m, 1, hour)\<close> of a convention.
\<close>

definition anchor_hour :: "bool \<Rightarrow> int" where
  "anchor_hour snodas = (if snodas then 5 else 0)"

definition earliest_year :: "bool \<Rightarrow> int" where
  "earliest_year snodas = (if snodas then 2008 else 2000)"

definition anchor :: "int \<Rightarrow> int \<Rightarrow> bool \<Rightarrow> timestamp" where
  "anchor y m snodas =
     \<lparr>ts_year = y, ts_month = m, ts_day = 1, ts_hour = anchor_hour snodas, ts_subhour = 0\<rparr>"

text \<open>
  The normals as the specification words them: the candidates are the anchors of the
  given month for every year from the earliest valid year to the year before the
  requested one, and the normals are the mean over the candidates found in the series.
\<close>

definition spec_candidates :: "int \<Rightarrow> int \<Rightarrow> bool \<Rightarrow> timestamp list" where
  "spec_candidates year month snodas =
     map (\<lambda>y. anchor y month snodas) [earliest_year snodas .. year - 1]"

definition spec_normals :: "dataarray \<Rightarrow> int \<Rightarrow> int \<Rightarrow> bool \<Rightarrow> grid" where
  "spec_normals da year month snodas =
     mean_time (da_ny da) (da_nx da) (map snd (sel_isin da (spec_candidates year month snodas)))"

definition all_nan :: "nat \<Rightarrow> nat \<Rightarrow> grid" where
  "all_nan ny nx = replicate ny (replicate nx None)"

subsection \<open>Text and numbers\<close>

text \<open>
  What the script prints is ASCII and is a \<open>string\<close>. What the user types is any Unicode
  text: a list of code points (\<open>utext\<close>); \<open>ustr\<close> reads a \<open>string\<close> as such a text.

  \<open>str(n)\<close> of an integer is its decimal numeral, with a minus sign when negative.
\<close>

type_synonym utext = "nat list"

definition ustr :: "string \<Rightarrow> utext" where
  "ustr s = map of_char s"

fun str_nat :: "nat \<Rightarrow> string" where
  "str_nat n =
     (if n < 10 then [''0123456789'' ! n]
      else str_nat (n div 10) @ [''0123456789'' ! (n mod 10)])"

declare str_nat.simps [simp del]

definition str_int :: "int \<Rightarrow> string" where
  "str_int i = (if i < 0 then CHR ''-'' # str_nat (nat (- i)) else str_nat (nat i))"

text \<open>
  \<open>int(s)\<close> of a text, base ten, in two steps as CPython does it.

  First the text is brought to ASCII. An ASCII text stays as it is. In any other text a
  code point below 127 stays, a Unicode white space becomes a space, a Unicode decimal
  digit becomes the ASCII digit of its value, and at the first other code point the text
  is cut and ends with a question mark. Which code points from 127 on are white space
  (\<open>sp\<close>) and decimal digits (\<open>dec\<close>) is the Unicode database of the Python build, a
  parameter of the model.

  Then the ASCII text is read: the white space of C at both ends is skipped (tab, line
  feed, vertical tab, form feed, carriage return, space, and nothing else), then comes an
  optional sign and at least one digit; a single underscore may stand between two digits.
  Anything else raises \<open>ValueError\<close>, and so does a numeral of more than 4300 digits (the
  default limit of \<open>sys.set_int_max_str_digits\<close>).
\<close>

fun to_ascii_from :: "(nat \<Rightarrow> bool) \<Rightarrow> (nat \<Rightarrow> nat option) \<Rightarrow> utext \<Rightarrow> utext" where
  "to_ascii_from sp dec [] = []"
| "to_ascii_from sp dec (ch # cs) =
     (if ch < 127 then ch # to_ascii_from sp dec cs
      else if sp ch then 32 # to_ascii_from sp dec cs
      else case dec ch of
             None \<Rightarrow> [63]
           | Some d \<Rightarrow> (48 + d) # to_ascii_from sp dec cs)"

definition to_ascii :: "(nat \<Rightarrow> bool) \<Rightarrow> (nat \<Rightarrow> nat option) \<Rightarrow> utext \<Rightarrow> utext" where
  "to_ascii sp dec u = (if list_all (\<lambda>ch. ch < 128) u then u else to_ascii_from sp dec u)"

definition is_space :: "nat \<Rightarrow> bool" where
  "is_space c \<longleftrightarrow> c \<in> set [9, 10, 11, 12, 13, 32]"

definition digit_val :: "nat \<Rightarrow> nat option" where
  "digit_val c = (if 48 \<le> c \<and> c \<le> 57 then Some (c - 48) else None)"

definition strip :: "utext \<Rightarrow> utext" where
  "strip s = rev (dropWhile is_space (rev (dropWhile is_space s)))"

text \<open>
  The digits after the sign. \<open>need\<close> says that a digit must come next (at the start and
  after an underscore, code point 95); \<open>acc\<close> is the value read so far.
\<close>

fun parse_digits :: "bool \<Rightarrow> nat \<Rightarrow> utext \<Rightarrow> nat option" where
  "parse_digits need acc [] = (if need then None else Some acc)"
| "parse_digits need acc (c # cs) =
     (if c = 95 then (if need then None else parse_digits True acc cs)
      else case digit_val c of
             None \<Rightarrow> None
           | Some d \<Rightarrow> parse_digits False (10 * acc + d) cs)"

text \<open>The sign is a minus (45) or a plus (43).\<close>

definition py_int :: "(nat \<Rightarrow> bool) \<Rightarrow> (nat \<Rightarrow> nat option) \<Rightarrow> utext \<Rightarrow> error + int" where
  "py_int sp dec s =
     (let t = strip (to_ascii sp dec s);
          neg = (t \<noteq> [] \<and> hd t = 45);
          body = (if t \<noteq> [] \<and> (hd t = 45 \<or> hd t = 43) then tl t else t)
      in if length (filter (\<lambda>c. digit_val c \<noteq> None) body) > 4300 then Inl ValueError
         else case parse_digits True 0 body of
                None \<Rightarrow> Inl ValueError
              | Some n \<Rightarrow> Inr (if neg then - int n else int n))"

subsection \<open>The world around the script\<close>

text \<open>
  What the script reads: the clock (\<open>dt.datetime.today()\<close>), the two access tokens of
  the process environment (\<open>os.getenv\<close> gives \<open>None\<close> for a variable that is not set),
  and the remote store. \<open>open_zarr env url container prefix\<close> stands for the three library
  calls of \<open>get_dataset\<close> (\<open>ContainerClient\<close>, \<open>zarr.ABSStore\<close>, \<open>xr.open_zarr\<close>): it gives
  the dataset, a map from variable names to arrays, or the exception the client raises.
  \<open>sel_xy env da xs ys\<close> stands for the spatial subset \<open>da.sel(x=slice(..), y=slice(..))\<close>,
  which works on coordinates the model does not carry. The environment also holds what
  the runtime brings along: the Unicode database that \<open>int\<close> consults (\<open>is_uspace\<close>,
  \<open>udecimal\<close>) and the rounding of the floating-point arithmetic (\<open>fround\<close>).
\<close>

type_synonym dataset = "string \<Rightarrow> dataarray option"

record env =
  today_year :: int
  today_month :: int
  SNODAS_SAS :: "string option"
  COPERNICUS_SAS :: "string option"
  open_zarr :: "string \<Rightarrow> string \<Rightarrow> string \<Rightarrow> error + dataset"
  sel_xy :: "dataarray \<Rightarrow> real \<times> real \<Rightarrow> real \<times> real \<Rightarrow> dataarray"
  is_uspace :: "nat \<Rightarrow> bool"
  udecimal :: "nat \<Rightarrow> nat option"
  fround :: rounding

text \<open>
  What the script changes: it consumes the lines the user types, prints, asks the storage
  client for containers, and writes raster files. Each is a list in order of occurrence.
\<close>

record raster =
  crs :: string
  pixels :: pgrid

record world =
  stdin :: "utext list"
  stdout :: "string list"
  contacted :: "string list"
  files :: "(string \<times> raster) list"

definition print :: "string \<Rightarrow> world \<Rightarrow> world" where
  "print s w = w\<lparr>stdout := stdout w @ [s]\<rparr>"

text \<open>\<open>input(prompt)\<close> prints the prompt and reads one line; at the end of the input it
  raises \<open>EOFError\<close>.\<close>

definition input :: "string \<Rightarrow> world \<Rightarrow> (error + utext) \<times> world" where
  "input prompt w =
     (case stdin w of
        [] \<Rightarrow> (Inl EOFError, print prompt w)
      | line # rest \<Rightarrow> (Inr line, (print prompt w)\<lparr>stdin := rest\<rparr>))"

subsection \<open>\<open>get_dataset\<close>\<close>

definition get_dataset ::
    "string \<Rightarrow> string \<Rightarrow> string option \<Rightarrow> env \<Rightarrow> world \<Rightarrow> (error + dataset) \<times> world" where
  "get_dataset container_name zarr_prefix sas env w =
     (case sas of
        None \<Rightarrow> (Inl TypeError, w)
      | Some token \<Rightarrow>
          (let url = ''https://climatedataprod.blob.core.windows.net?'' @ token
           in (open_zarr env url container_name zarr_prefix,
               w\<lparr>contacted := contacted w @ [container_name]\<rparr>)))"

subsection \<open>\<open>get_month_year\<close>\<close>

text \<open>
  \<open>input(..) or str(default)\<close> replaces an empty line by the default's numeral. The
  \<open>try\<close> block turns \<open>ValueError\<close>, raised by \<open>int\<close> or by the range check, into the
  message and the result \<open>(None, None)\<close>.
\<close>

definition get_month_year :: "env \<Rightarrow> world \<Rightarrow> (error + int option \<times> int option) \<times> world" where
  "get_month_year env w =
     (let default_month = today_month env;
          default_year = today_year env
      in case input (''Enter year [default: '' @ str_int default_year @ '']: '') w of
           (Inl e, w1) \<Rightarrow> (Inl e, w1)
         | (Inr line1, w1) \<Rightarrow>
            (let year_input = (if line1 = [] then ustr (str_int default_year) else line1)
             in case (case py_int (is_uspace env) (udecimal env) year_input of
                        Inl e \<Rightarrow> Inl e
                      | Inr year \<Rightarrow> if year < 1900 \<or> year > 2100 then Inl ValueError else Inr year) of
                  Inl e \<Rightarrow>
                    (if e = ValueError
                     then (Inr (None, None), print ''Invalid year. Please enter a 4-digit number.'' w1)
                     else (Inl e, w1))
                | Inr year \<Rightarrow>
                   (case input (''Enter month (1-12) [default: '' @ str_int default_month @ '']: '') w1 of
                      (Inl e, w2) \<Rightarrow> (Inl e, w2)
                    | (Inr line2, w2) \<Rightarrow>
                       (let month_input = (if line2 = [] then ustr (str_int default_month) else line2)
                        in case (case py_int (is_uspace env) (udecimal env) month_input of
                                   Inl e \<Rightarrow> Inl e
                                 | Inr month \<Rightarrow> if month < 1 \<or> month > 12 then Inl ValueError else Inr month) of
                             Inl e \<Rightarrow>
                               (if e = ValueError
                                then (Inr (None, None),
                                      print ''Invalid month. Please enter a number from 1 to 12.'' w2)
                                else (Inl e, w2))
                           | Inr month \<Rightarrow> (Inr (Some year, Some month), w2)))))"

subsection \<open>\<open>main\<close>\<close>

text \<open>
  \<open>dt.date(year, month, 1).strftime("%b").lower()\<close>: the abbreviated month name of the
  C locale, in lower case. \<open>dt.date\<close> checks its fields like \<open>dt.datetime\<close>.
\<close>

definition month_abbr :: "string list" where
  "month_abbr = [''Jan'', ''Feb'', ''Mar'', ''Apr'', ''May'', ''Jun'',
                 ''Jul'', ''Aug'', ''Sep'', ''Oct'', ''Nov'', ''Dec'']"

definition lower_char :: "char \<Rightarrow> char" where
  "lower_char c =
     (case map_of (zip ''ABCDEFGHIJKLMNOPQRSTUVWXYZ'' ''abcdefghijklmnopqrstuvwxyz'') c of
        None \<Rightarrow> c
      | Some l \<Rightarrow> l)"

definition lower :: "string \<Rightarrow> string" where
  "lower s = map lower_char s"

definition month_str_of :: "int \<Rightarrow> int \<Rightarrow> error + string" where
  "month_str_of year month =
     (case datetime year month 1 0 of
        Inl e \<Rightarrow> Inl e
      | Inr d \<Rightarrow> Inr (lower (month_abbr ! nat (ts_month d - 1))))"

definition write_crs :: "pgrid \<Rightarrow> string \<Rightarrow> raster" where
  "write_crs g code = \<lparr>crs = code, pixels = g\<rparr>"

definition to_raster :: "raster \<Rightarrow> string \<Rightarrow> world \<Rightarrow> world" where
  "to_raster r filename w = w\<lparr>files := files w @ [(filename, r)]\<rparr>"

text \<open>
  \<open>main\<close> catches nothing: the first exception ends the run, and the result names it
  (\<open>None\<close> when \<open>main\<close> returns).
\<close>

definition main :: "env \<Rightarrow> world \<Rightarrow> error option \<times> world" where
  "main env w =
     (case get_month_year env w of
        (Inl e, w1) \<Rightarrow> (Some e, w1)
      | (Inr (None, _), w1) \<Rightarrow> (None, print ''Exiting due to invalid input.'' w1)
      | (Inr (Some _, None), w1) \<Rightarrow> (None, print ''Exiting due to invalid input.'' w1)
      | (Inr (Some year, Some month), w1) \<Rightarrow>
     (case get_dataset ''snodas-v1'' ''snodas.zarr'' (SNODAS_SAS env) env w1 of
        (Inl e, w2) \<Rightarrow> (Some e, w2)
      | (Inr snodas_ds, w2) \<Rightarrow>
     (let w3 = print ''snodas dataset loaded'' w2 in
      case snodas_ds ''1034'' of
        None \<Rightarrow> (Some KeyError, w3)
      | Some snodas_var \<Rightarrow>
     (let snodas_da = sel_xy env snodas_var (- 14528544.60, - 10528544.60)
                        (5915989.877651, 7255989.877651) in
      case get_dataset ''copernicus'' ''copernicus.zarr'' (COPERNICUS_SAS env) env w3 of
        (Inl e, w4) \<Rightarrow> (Some e, w4)
      | (Inr copernicus_ds, w4) \<Rightarrow>
     (let w5 = print ''copernicus dataset loaded'' w4 in
      case copernicus_ds ''swe'' of
        None \<Rightarrow> (Some KeyError, w5)
      | Some copernicus_var \<Rightarrow>
     (let cop_da = sel_xy env copernicus_var (- 15029545, - 10929545) (5963905, 8263905) in
      case get_normals snodas_da year month True of
        Inl e \<Rightarrow> (Some e, w5)
      | Inr snodas_normals \<Rightarrow>
     (case get_normals cop_da year month False of
        Inl e \<Rightarrow> (Some e, w5)
      | Inr copernicus_normals \<Rightarrow>
     (let w6 = print ''processing percent of normal'' w5 in
      case get_percent_of_normal (fround env) snodas_da snodas_normals year month True of
        Inl e \<Rightarrow> (Some e, w6)
      | Inr snodas_pon \<Rightarrow>
     (case get_percent_of_normal (fround env) cop_da copernicus_normals year month False of
        Inl e \<Rightarrow> (Some e, w6)
      | Inr copernicus_pon \<Rightarrow>
     (let snodas_percent_of_normal = write_crs snodas_pon ''EPSG:3857'';
          copernicus_percent_of_normal = write_crs copernicus_pon ''EPSG:3857'' in
      case month_str_of year month of
        Inl e \<Rightarrow> (Some e, w6)
      | Inr month_str \<Rightarrow>
     (let snodas_output_filename =
            ''snodas_prcnt_of_norm_'' @ month_str @ ''_'' @ str_int year @ ''.tif'';
          w7 = to_raster snodas_percent_of_normal snodas_output_filename w6;
          w8 = print (''Saved percent-of-normal raster to: '' @ snodas_output_filename) w7;
          copernicus_output_filename =
            ''copernicus_prcnt_of_norm_'' @ month_str @ ''_'' @ str_int year @ ''.tif'';
          w9 = to_raster copernicus_percent_of_normal copernicus_output_filename w8;
          w10 = print (''Saved percent-of-normal raster to: '' @ copernicus_output_filename) w9
      in (None, w10))))))))))))"

subsection \<open>Words of the specification about input and output\<close>

text \<open>
  The number a typed line stands for: an empty line stands for the default. A field is
  valid when that text is a numeral within the field's range. The two prompts are the
  strings \<open>get_month_year\<close> prints.
\<close>

definition resolve :: "env \<Rightarrow> int \<Rightarrow> utext \<Rightarrow> error + int" where
  "resolve env dflt line =
     py_int (is_uspace env) (udecimal env) (if line = [] then ustr (str_int dflt) else line)"

definition valid_field :: "env \<Rightarrow> int \<Rightarrow> int \<Rightarrow> int \<Rightarrow> utext \<Rightarrow> bool" where
  "valid_field env lo hi dflt line \<longleftrightarrow>
     (case resolve env dflt line of Inl e \<Rightarrow> False | Inr v \<Rightarrow> lo \<le> v \<and> v \<le> hi)"

definition year_prompt :: "env \<Rightarrow> string" where
  "year_prompt env = ''Enter year [default: '' @ str_int (today_year env) @ '']: ''"

definition month_prompt :: "env \<Rightarrow> string" where
  "month_prompt env = ''Enter month (1-12) [default: '' @ str_int (today_month env) @ '']: ''"

text \<open>
  The output name as the specification gives it:
  \<open>{datasetFamily}_prcnt_of_norm_{monthAbbrevLowercase}_{year}.tif\<close>, with the three-letter
  lower-case month name.
\<close>

definition spec_month_abbrev :: "int \<Rightarrow> string" where
  "spec_month_abbrev month =
     [''jan'', ''feb'', ''mar'', ''apr'', ''may'', ''jun'',
      ''jul'', ''aug'', ''sep'', ''oct'', ''nov'', ''dec''] ! nat (month - 1)"

definition spec_filename :: "string \<Rightarrow> int \<Rightarrow> int \<Rightarrow> string" where
  "spec_filename family year month =
     family @ ''_prcnt_of_norm_'' @ spec_month_abbrev month @ ''_'' @ str_int year @ ''.tif''"

text \<open>
  The output raster of one dataset family as the data flow of the specification has it:
  the accessor opens the family's store, takes its variable and its bounding box; the
  normals engine and the ratio computer work on that series with the family's
  convention; the sink tags the grid with EPSG:3857.
\<close>

definition family_raster :: "env \<Rightarrow> bool \<Rightarrow> int \<Rightarrow> int \<Rightarrow> error + raster" where
  "family_raster env snodas year month =
     (case (if snodas then SNODAS_SAS env else COPERNICUS_SAS env) of
        None \<Rightarrow> Inl TypeError
      | Some token \<Rightarrow>
     (case open_zarr env (''https://climatedataprod.blob.core.windows.net?'' @ token)
             (if snodas then ''snodas-v1'' else ''copernicus'')
             (if snodas then ''snodas.zarr'' else ''copernicus.zarr'') of
        Inl e \<Rightarrow> Inl e
      | Inr ds \<Rightarrow>
     (case ds (if snodas then ''1034'' else ''swe'') of
        None \<Rightarrow> Inl KeyError
      | Some v \<Rightarrow>
     (let da = (if snodas
                then sel_xy env v (- 14528544.60, - 10528544.60) (5915989.877651, 7255989.877651)
                else sel_xy env v (- 15029545, - 10929545) (5963905, 8263905)) in
      case get_normals da year month snodas of
        Inl e \<Rightarrow> Inl e
      | Inr normals \<Rightarrow>
     (case get_percent_of_normal (fround env) da normals year month snodas of
        Inl e \<Rightarrow> Inl e
      | Inr p \<Rightarrow> Inr \<lparr>crs = ''EPSG:3857'', pixels = p\<rparr>)))))"

subsection \<open>Example series\<close>

text \<open>One-cell SNODAS series used to run the functions on concrete inputs.\<close>

definition c1_series :: dataarray where
  "c1_series = \<lparr>da_ny = 1, da_nx = 1, da_steps =
     [(anchor 2008 3 True, [[Some 10]]),
      (anchor 2009 1 True, [[Some 99]]),
      (anchor 2009 3 True, [[Some 20]])]\<rparr>"

definition c4_series :: dataarray where
  "c4_series = \<lparr>da_ny = 1, da_nx = 1, da_steps =
     [(anchor 2009 1 True, [[Some 4]]),
      (anchor 2010 1 True, [[Some 6]]),
      (anchor 2010 3 True, [[Some 8]])]\<rparr>"

definition c5_series :: dataarray where
  "c5_series = \<lparr>da_ny = 1, da_nx = 1, da_steps = [(anchor 2008 1 True, [[Some 7]])]\<rparr>"

definition c2_series :: dataarray where
  "c2_series = \<lparr>da_ny = 1, da_nx = 2, da_steps =
     [(anchor 2022 1 True, [[Some 0, Some 20]]),
      (anchor 2023 3 True, [[Some 0, Some 30]])]\<rparr>"

definition c3_series :: dataarray where
  "c3_series = \<lparr>da_ny = 1, da_nx = 1, da_steps =
     [(anchor 2023 2 True, [[Some 1]]),
      (\<lparr>ts_year = 2023, ts_month = 3, ts_day = 1, ts_hour = 6, ts_subhour = 0\<rparr>, [[Some 2]]),
      (\<lparr>ts_year = 2023, ts_month = 3, ts_day = 2, ts_hour = 5, ts_subhour = 0\<rparr>, [[Some 3]])]\<rparr>"

subsection \<open>Example worlds\<close>

text \<open>
  A rounding that is exact below the overflow threshold of binary64: it agrees with
  binary64 wherever the exact result is representable, and the examples compute only
  such results.
\<close>

definition example_round :: rounding where
  "example_round x = (if \<bar>x\<bar> \<ge> 2 ^ 1024 then Infinite else Fin x)"

text \<open>
  The white space of Unicode from code point 127 on, and the decimal digits of two
  scripts (Arabic-Indic and fullwidth), an excerpt of the digit table that suffices for the
  examples, whose typed lines are ASCII or use these.
\<close>

definition example_uspace :: "nat \<Rightarrow> bool" where
  "example_uspace c \<longleftrightarrow>
     c \<in> set [0x85, 0xA0, 0x1680, 0x2028, 0x2029, 0x202F, 0x205F, 0x3000] \<or>
     (0x2000 \<le> c \<and> c \<le> 0x200A)"

definition example_udecimal :: "nat \<Rightarrow> nat option" where
  "example_udecimal c =
     (if 0x660 \<le> c \<and> c \<le> 0x669 then Some (c - 0x660)
      else if 0xFF10 \<le> c \<and> c \<le> 0xFF19 then Some (c - 0xFF10)
      else None)"

text \<open>
  A clock at July 2024, both tokens set, a store that serves the SNODAS variable \<open>1034\<close>
  and the Copernicus variable \<open>swe\<close>, and a spatial subset that keeps everything; then
  the same with the SNODAS store unreachable, and with the Copernicus store unreachable.
\<close>

definition cop_series :: dataarray where
  "cop_series = \<lparr>da_ny = 1, da_nx = 1, da_steps =
     [(anchor 2022 1 False, [[Some 8]]), (anchor 2023 3 False, [[Some 4]])]\<rparr>"

definition example_env :: env where
  "example_env = \<lparr>today_year = 2024, today_month = 7,
     SNODAS_SAS = Some ''sv=1'', COPERNICUS_SAS = Some ''sv=2'',
     open_zarr = (\<lambda>url container prefix.
        if container = ''snodas-v1'' then Inr (\<lambda>v. if v = ''1034'' then Some c2_series else None)
        else if container = ''copernicus'' then
          Inr (\<lambda>v. if v = ''swe'' then Some cop_series else None)
        else Inl DataSourceUnavailable),
     sel_xy = (\<lambda>da xs ys. da),
     is_uspace = example_uspace, udecimal = example_udecimal, fround = example_round\<rparr>"

definition snodas_down_env :: env where
  "snodas_down_env = example_env\<lparr>open_zarr := (\<lambda>url container prefix.
        if container = ''snodas-v1'' then Inl DataSourceUnavailable
        else open_zarr example_env url container prefix)\<rparr>"

definition world0 :: "utext list \<Rightarrow> world" where
  "world0 ls = \<lparr>stdin = ls, stdout = [], contacted = [], files = []\<rparr>"

definition copernicus_down_env :: env where
  "copernicus_down_env = example_env\<lparr>open_zarr := (\<lambda>url container prefix.
        if container = ''copernicus'' then Inl DataSourceUnavailable
        else open_zarr example_env url container prefix)\<rparr>"

definition after_prompts :: world where
  "after_prompts = \<lparr>stdin = [],
     stdout = [''Enter year [default: 2024]: '', ''Enter month (1-12) [default: 7]: ''],
     contacted = [], files = []\<rparr>"

section \<open>Properties\<close>

subsection \<open>The candidate anchors\<close>

lemmas eval_defs = anchor_def anchor_hour_def earliest_year_def sel_isin_def mean_time_def
  nanmean_def sel_time_def fdiv_def fmul_def percent_of_def spec_candidates_def spec_normals_def
  example_round_def

lemma datetime_first:
  "1 \<le> y \<Longrightarrow> y \<le> 9999 \<Longrightarrow> 1 \<le> m \<Longrightarrow> m \<le> 12 \<Longrightarrow>
   datetime y m 1 (anchor_hour snodas) = Inr (anchor y m snodas)"
  by (simp add: datetime_def days_in_month_def anchor_def anchor_hour_def)

lemma in_bounds_anchor:
  "1678 \<le> y \<Longrightarrow> y \<le> 2261 \<Longrightarrow> in_bounds (anchor y m snodas)"
  by (simp add: in_bounds_def ts_le_def ts_less_def Timestamp_min_def Timestamp_max_def anchor_def)

lemma in_bounds_anchor_jan:
  "1678 \<le> y \<Longrightarrow> y \<le> 2262 \<Longrightarrow> in_bounds (anchor y 1 snodas)"
  by (auto simp: in_bounds_def ts_le_def ts_less_def Timestamp_min_def Timestamp_max_def anchor_def)

lemma filter_all: "(\<And>x. x \<in> set xs \<Longrightarrow> P x) \<Longrightarrow> filter P xs = xs"
  by (induction xs) auto

text \<open>
  Between two anchors of the same month, \<open>freq="AS"\<close> yields the 1 January stamps: from the
  start year when the month is January, from the year after it otherwise.
\<close>

lemma date_range_AS_anchors:
  assumes "1678 \<le> y0" "y0 \<le> 2260" "1678 \<le> y1" "y1 \<le> 2261" "1 \<le> m"
  shows "date_range_AS (anchor y0 m snodas) (anchor y1 m snodas) =
         Inr (map (\<lambda>y. anchor y 1 snodas) [(if m = 1 then y0 else y0 + 1) .. y1])"
proof -
  let ?first = "rollforward_AS (anchor y0 m snodas)"
  let ?end = "anchor y1 m snodas"
  let ?dates = "map (\<lambda>y. anchor y 1 snodas) [(if m = 1 then y0 else y0 + 1) .. y1]"
  have first: "?first = anchor (if m = 1 then y0 else y0 + 1) 1 snodas"
    by (simp add: rollforward_AS_def on_offset_AS_def anchor_def)
  have inb: "in_bounds ?first"
    unfolding first using assms(1,2) by (intro in_bounds_anchor) auto
  have upd: "\<And>y. ?first\<lparr>ts_year := y\<rparr> = anchor y 1 snodas"
    unfolding first by (simp add: anchor_def)
  have yr: "ts_year ?first = (if m = 1 then y0 else y0 + 1)"
    unfolding first by (simp add: anchor_def)
  have keep: "\<And>t. t \<in> set ?dates \<Longrightarrow> ts_le t ?end"
    using assms(5) by (auto simp: ts_le_def ts_less_def anchor_def)
  have yend: "ts_year ?end = y1"
    by (simp add: anchor_def)
  have dates: "filter (\<lambda>t. ts_le t ?end)
      (map (\<lambda>y. ?first\<lparr>ts_year := y\<rparr>) [ts_year ?first .. ts_year ?end]) = ?dates"
    by (simp only: upd yr yend filter_all [OF keep])
  have step: "in_bounds ((last ?dates)\<lparr>ts_year := ts_year (last ?dates) + 1\<rparr>)"
    if "?dates \<noteq> []"
  proof -
    have "last ?dates \<in> set ?dates" using that by (rule last_in_set)
    then obtain y where y: "last ?dates = anchor y 1 snodas" "y0 \<le> y" "y \<le> y1"
      by (auto split: if_splits)
    have "(last ?dates)\<lparr>ts_year := ts_year (last ?dates) + 1\<rparr> = anchor (y + 1) 1 snodas"
      unfolding y(1) by (simp add: anchor_def)
    then show ?thesis
      using in_bounds_anchor_jan [of "y + 1" snodas] y(2,3) assms(1,4) by simp
  qed
  let ?raw = "filter (\<lambda>t. ts_le t ?end)
      (map (\<lambda>y. ?first\<lparr>ts_year := y\<rparr>) [ts_year ?first .. ts_year ?end])"
  have "date_range_AS (anchor y0 m snodas) ?end =
        (if ?raw \<noteq> [] \<and> last ?raw \<noteq> ?end \<and>
            \<not> in_bounds ((last ?raw)\<lparr>ts_year := ts_year (last ?raw) + 1\<rparr>)
         then Inl OutOfBoundsDatetime else Inr ?raw)"
    using assms(1-4) inb by (simp add: date_range_AS_def Let_def in_bounds_anchor)
  also have "\<dots> = (if ?dates \<noteq> [] \<and> last ?dates \<noteq> ?end \<and>
               \<not> in_bounds ((last ?dates)\<lparr>ts_year := ts_year (last ?dates) + 1\<rparr>)
            then Inl OutOfBoundsDatetime else Inr ?dates)"
    by (simp only: dates)
  also have "\<dots> = Inr ?dates"
    using step by (cases "?dates = []") simp_all
  finally show ?thesis .
qed

lemma month_firsts_valid:
  assumes "1900 \<le> year" "year \<le> 2100" "1 \<le> month" "month \<le> 12"
  shows "month_firsts year month snodas =
         Inr (map (\<lambda>y. anchor y 1 snodas)
                [(if month = 1 then earliest_year snodas else earliest_year snodas + 1) .. year - 1])"
proof (cases snodas)
  case True
  have a: "datetime 2008 month 1 5 = Inr (anchor 2008 month True)"
    using datetime_first [of 2008 month True] assms by (simp add: anchor_hour_def)
  have b: "datetime (year - 1) month 1 5 = Inr (anchor (year - 1) month True)"
    using datetime_first [of "year - 1" month True] assms by (simp add: anchor_hour_def)
  show ?thesis
    using True assms date_range_AS_anchors [of 2008 "year - 1" month True]
    by (simp add: month_firsts_def a b earliest_year_def)
next
  case False
  have a: "datetime 2000 month 1 0 = Inr (anchor 2000 month False)"
    using datetime_first [of 2000 month False] assms by (simp add: anchor_hour_def)
  have b: "datetime (year - 1) month 1 0 = Inr (anchor (year - 1) month False)"
    using datetime_first [of "year - 1" month False] assms by (simp add: anchor_hour_def)
  show ?thesis
    using False assms date_range_AS_anchors [of 2000 "year - 1" month False]
    by (simp add: month_firsts_def a b earliest_year_def)
qed

subsection \<open>\<open>get_normals\<close>\<close>

text \<open>
  What \<open>get_normals\<close> computes for a valid year and month: the mean over the 1 January
  anchors found in the series, whatever the month. For January this is what the
  specification asks for.
\<close>

lemma get_normals_valid:
  assumes "1900 \<le> year" "year \<le> 2100" "1 \<le> month" "month \<le> 12"
  shows "get_normals da year month snodas =
         Inr (mean_time (da_ny da) (da_nx da) (map snd (sel_isin da
           (map (\<lambda>y. anchor y 1 snodas)
              [(if month = 1 then earliest_year snodas else earliest_year snodas + 1) .. year - 1]))))"
  by (simp add: get_normals_def month_firsts_valid [OF assms])

lemma get_normals_january:
  assumes "1900 \<le> year" "year \<le> 2100"
  shows "get_normals da year 1 snodas = Inr (spec_normals da year 1 snodas)"
  using get_normals_valid [OF assms, of 1 da snodas]
  by (simp add: spec_normals_def spec_candidates_def)

text \<open>
  Claim C1 (the normals are the mean over the anchors of the given month, for every year
  from the earliest valid year to the year before the requested one). The code does not
  do this for a month other than January. For the SNODAS series with 10 on 2008-03-01
  05:00, 99 on 2009-01-01 05:00 and 20 on 2009-03-01 05:00, the request (2010, March)
  gives 99, the value of 1 January 2009, where the claim asks for the mean 15 of the two
  March anchors.
\<close>

theorem get_normals_ignores_month:
  "get_normals c1_series 2010 3 True = Inr [[Some 99]] \<and>
   spec_normals c1_series 2010 3 True = [[Some 15]]"
proof -
  have "get_normals c1_series 2010 3 True = Inr [[Some 99]]"
    using get_normals_valid [of 2010 3 c1_series True]
    by (simp add: c1_series_def eval_defs)
  moreover have "spec_normals c1_series 2010 3 True = [[Some 15]]"
    by (simp add: c1_series_def eval_defs)
  ultimately show ?thesis by simp
qed

lemma ts_less_anchor:
  "y < year \<Longrightarrow> ts_less (anchor y m snodas) (anchor year m' snodas)"
  by (simp add: ts_less_def anchor_def)

text \<open>
  Claim C4: for a valid year and month, every timestep that \<open>get_normals\<close> averages lies
  in a year no later than \<open>year - 1\<close> and strictly before the target anchor
  \<open>(year, month, 1, anchor hour)\<close>; nothing of the target year or later contributes.
\<close>

theorem get_normals_only_earlier_years:
  assumes "1900 \<le> year" "year \<le> 2100" "1 \<le> month" "month \<le> 12"
  shows "\<exists>mf. month_firsts year month snodas = Inr mf \<and>
           get_normals da year month snodas =
             Inr (mean_time (da_ny da) (da_nx da) (map snd (sel_isin da mf))) \<and>
           (\<forall>(t, g) \<in> set (sel_isin da mf).
              ts_year t \<le> year - 1 \<and> ts_less t (anchor year month snodas))"
proof -
  let ?mf = "map (\<lambda>y. anchor y 1 snodas)
      [(if month = 1 then earliest_year snodas else earliest_year snodas + 1) .. year - 1]"
  have mf: "month_firsts year month snodas = Inr ?mf"
    by (rule month_firsts_valid [OF assms])
  have early: "ts_year t \<le> year - 1 \<and> ts_less t (anchor year month snodas)"
    if "t \<in> set ?mf" for t
  proof -
    from that obtain y where y: "t = anchor y 1 snodas" "y \<le> year - 1" by auto
    have "ts_year t = y" using y(1) by (simp add: anchor_def)
    moreover have "ts_less t (anchor year month snodas)"
      unfolding y(1) using y(2) by (intro ts_less_anchor) simp
    ultimately show ?thesis using y(2) by simp
  qed
  have "\<forall>(t, g) \<in> set (sel_isin da ?mf).
          ts_year t \<le> year - 1 \<and> ts_less t (anchor year month snodas)"
    using early by (auto simp: sel_isin_def simp del: set_map set_upto)
  then show ?thesis
    using mf by (simp add: get_normals_def)
qed

theorem get_normals_only_earlier_years_witness:
  "(1900::int) \<le> 2010 \<and> (2010::int) \<le> 2100 \<and> (1::int) \<le> 3 \<and> (3::int) \<le> 12 \<and>
   sel_isin c4_series [anchor 2009 1 True] = [(anchor 2009 1 True, [[Some 4]])] \<and>
   (\<exists>mf. month_firsts 2010 3 True = Inr mf \<and>
      get_normals c4_series 2010 3 True = Inr (mean_time 1 1 (map snd (sel_isin c4_series mf))) \<and>
      (\<forall>(t, g) \<in> set (sel_isin c4_series mf).
         ts_year t \<le> 2010 - 1 \<and> ts_less t (anchor 2010 3 True)))"
proof -
  have sel: "sel_isin c4_series [anchor 2009 1 True] = [(anchor 2009 1 True, [[Some 4]])]"
    by (simp add: c4_series_def sel_isin_def anchor_def)
  have shape: "da_ny c4_series = 1" "da_nx c4_series = 1"
    by (simp_all add: c4_series_def)
  show ?thesis
    using get_normals_only_earlier_years [of 2010 3 True c4_series] sel
    by (simp add: shape)
qed

text \<open>
  Claim C5 as stated (the request for the earliest valid year plus one matches no anchor)
  fails: for SNODAS the request (2009, January) has the candidate 2008-01-01 05:00, and a
  series that holds it gives a normals grid with that value.
\<close>

theorem earliest_year_plus_one_counterexample:
  "2009 = earliest_year True + 1 \<and>
   month_firsts 2009 1 True = Inr [anchor 2008 1 True] \<and>
   sel_isin c5_series [anchor 2008 1 True] = [(anchor 2008 1 True, [[Some 7]])] \<and>
   get_normals c5_series 2009 1 True = Inr [[Some 7]]"
proof -
  have mf: "month_firsts 2009 1 True = Inr [anchor 2008 1 True]"
    using month_firsts_valid [of 2009 1 True] by (simp add: earliest_year_def)
  have sel: "sel_isin c5_series [anchor 2008 1 True] = [(anchor 2008 1 True, [[Some 7]])]"
    by (simp add: c5_series_def sel_isin_def)
  have "get_normals c5_series 2009 1 True = Inr [[Some 7]]"
    by (simp add: get_normals_def mf sel) (simp add: c5_series_def mean_time_def nanmean_def)
  then show ?thesis using mf sel by (simp add: earliest_year_def)
qed

lemma mean_time_empty: "mean_time ny nx [] = all_nan ny nx"
  by (simp add: mean_time_def nanmean_def all_nan_def map_replicate_const)

text \<open>
  Claim C5, amended: for every valid year and month, the year after the earliest valid
  year included, \<open>get_normals\<close> raises nothing; whenever none of its candidate timestamps
  is in the series (always so when the year is at most the earliest valid year) it returns
  the all-NaN grid of the series' spatial shape.
\<close>

theorem get_normals_no_match:
  assumes "1900 \<le> year" "year \<le> 2100" "1 \<le> month" "month \<le> 12"
  shows "\<exists>mf. month_firsts year month snodas = Inr mf \<and>
           (\<exists>g. get_normals da year month snodas = Inr g) \<and>
           (sel_isin da mf = [] \<longrightarrow>
              get_normals da year month snodas = Inr (all_nan (da_ny da) (da_nx da))) \<and>
           (year \<le> earliest_year snodas \<longrightarrow> mf = [])"
proof -
  let ?mf = "map (\<lambda>y. anchor y 1 snodas)
      [(if month = 1 then earliest_year snodas else earliest_year snodas + 1) .. year - 1]"
  have mf: "month_firsts year month snodas = Inr ?mf"
    by (rule month_firsts_valid [OF assms])
  have none: "year \<le> earliest_year snodas \<longrightarrow> ?mf = []"
    by simp
  show ?thesis
    using mf none by (simp add: get_normals_def mean_time_empty)
qed

theorem get_normals_no_match_witness:
  "(1900::int) \<le> 2009 \<and> (2009::int) \<le> 2100 \<and> (1::int) \<le> 1 \<and> (1::int) \<le> 12 \<and>
   2009 = earliest_year True + 1 \<and>
   month_firsts 2009 1 True = Inr [anchor 2008 1 True] \<and>
   sel_isin c3_series [anchor 2008 1 True] = [] \<and>
   get_normals c3_series 2009 1 True = Inr [[None]]"
proof -
  have mf: "month_firsts 2009 1 True = Inr [anchor 2008 1 True]"
    using month_firsts_valid [of 2009 1 True] by (simp add: earliest_year_def)
  have sel: "sel_isin c3_series [anchor 2008 1 True] = []"
    by (simp add: c3_series_def sel_isin_def anchor_def)
  have shape: "all_nan (da_ny c3_series) (da_nx c3_series) = [[None]]"
    by (simp add: c3_series_def all_nan_def)
  show ?thesis
    using get_normals_no_match [of 2009 1 True c3_series] mf sel
    by (simp add: shape earliest_year_def)
qed

subsection \<open>\<open>get_percent_of_normal\<close>\<close>

lemma filter_key_absent:
  "t \<notin> fst ` set xs \<Longrightarrow> filter (\<lambda>(t', g). t' = t) xs = []"
  by (induction xs) auto

lemma filter_key_present:
  "distinct (map fst xs) \<Longrightarrow> (t, g) \<in> set xs \<Longrightarrow> filter (\<lambda>(t', g). t' = t) xs = [(t, g)]"
proof (induction xs)
  case Nil
  then show ?case by simp
next
  case (Cons x xs)
  show ?case
  proof (cases "x = (t, g)")
    case True
    then have "t \<notin> fst ` set xs" using Cons.prems(1) by simp
    then show ?thesis using True by (simp add: filter_key_absent)
  next
    case False
    then have mem: "(t, g) \<in> set xs" using Cons.prems(2) by simp
    then have "fst x \<noteq> t" using Cons.prems(1) by (auto simp: image_iff)
    then show ?thesis using Cons.IH mem Cons.prems(1) by (simp add: case_prod_beta)
  qed
qed

lemma sel_time_absent:
  "t \<notin> fst ` set (da_steps da) \<Longrightarrow> sel_time da t = Inl KeyError"
  by (simp add: sel_time_def filter_key_absent)

lemma sel_time_present:
  "distinct (map fst (da_steps da)) \<Longrightarrow> (t, g) \<in> set (da_steps da) \<Longrightarrow> sel_time da t = Inr g"
  by (simp add: sel_time_def filter_key_present)

lemma target_datetime:
  assumes "1900 \<le> year" "year \<le> 2100" "1 \<le> month" "month \<le> 12"
  shows "(if snodas then datetime year month 1 5 else datetime year month 1 0) =
         Inr (anchor year month snodas)"
  using datetime_first [of year month snodas] assms
  by (cases snodas) (simp_all add: anchor_hour_def)

lemma get_percent_of_normal_present:
  assumes "1900 \<le> year" "year \<le> 2100" "1 \<le> month" "month \<le> 12"
    and "distinct (map fst (da_steps da))"
    and "(anchor year month snodas, g) \<in> set (da_steps da)"
  shows "get_percent_of_normal rnd da normals year month snodas = percent_of rnd g normals"
  by (simp add: get_percent_of_normal_def target_datetime [OF assms(1-4)]
      sel_time_present [OF assms(5,6)])

text \<open>
  Claim C3: for a valid year and month, when the target anchor is not a label of the
  series' time index, \<open>get_percent_of_normal\<close> raises \<open>KeyError\<close> (the missing target
  period), whatever other timesteps are near; when it is a label, the grid of exactly that
  timestep is selected and divided by the normals.
\<close>

theorem target_selected_exactly:
  assumes "1900 \<le> year" "year \<le> 2100" "1 \<le> month" "month \<le> 12"
  shows "(anchor year month snodas \<notin> fst ` set (da_steps da) \<longrightarrow>
            get_percent_of_normal rnd da normals year month snodas = Inl KeyError) \<and>
         (distinct (map fst (da_steps da)) \<longrightarrow>
            (\<forall>g. (anchor year month snodas, g) \<in> set (da_steps da) \<longrightarrow>
               sel_time da (anchor year month snodas) = Inr g \<and>
               get_percent_of_normal rnd da normals year month snodas =
                 percent_of rnd g normals \<and>
               (map length g = map length normals \<longrightarrow>
                  get_percent_of_normal rnd da normals year month snodas =
                    Inr (map2 (map2 (\<lambda>a b. fmul rnd (fdiv rnd a b) 100)) g normals))))"
  by (simp add: get_percent_of_normal_def target_datetime [OF assms]
        sel_time_absent sel_time_present percent_of_def)

theorem target_selected_exactly_witness:
  "(1900::int) \<le> 2023 \<and> (2023::int) \<le> 2100 \<and> (1::int) \<le> 3 \<and> (3::int) \<le> 12 \<and>
   anchor 2023 3 True \<notin> fst ` set (da_steps c3_series) \<and>
   get_percent_of_normal example_round c3_series [[Some 2]] 2023 3 True = Inl KeyError \<and>
   distinct (map fst (da_steps c2_series)) \<and>
   (anchor 2023 3 True, [[Some 0, Some 30]]) \<in> set (da_steps c2_series) \<and>
   map length [[Some 0, Some (30::real)]] = map length [[Some 5, Some (20::real)]] \<and>
   get_percent_of_normal example_round c2_series [[Some 5, Some 20]] 2023 3 True =
     Inr [[Fin 0, Fin 150]]"
proof -
  have absent: "anchor 2023 3 True \<notin> fst ` set (da_steps c3_series)"
    by (simp add: c3_series_def anchor_def anchor_hour_def)
  have dist: "distinct (map fst (da_steps c2_series))"
    by (simp add: c2_series_def anchor_def)
  have mem: "(anchor 2023 3 True, [[Some 0, Some 30]]) \<in> set (da_steps c2_series)"
    by (simp add: c2_series_def)
  show ?thesis
    using target_selected_exactly [of 2023 3 True c3_series example_round "[[Some 2]]"]
      target_selected_exactly [of 2023 3 True c2_series example_round "[[Some 5, Some 20]]"]
      absent dist mem
    by (simp add: percent_of_def fdiv_def fmul_def example_round_def)
qed

text \<open>
  Claim C2 as stated (a cell where the target equals the normals yields exactly 100) fails
  where both are zero: a series with 0 in the first cell on 2022-01-01 05:00 and on the
  target 2023-03-01 05:00 has the normal 0 there, and the quotient is NaN.
\<close>

theorem equal_zero_cells_counterexample:
  "get_normals c2_series 2023 3 True = Inr [[Some 0, Some 20]] \<and>
   sel_time c2_series (anchor 2023 3 True) = Inr [[Some 0, Some 30]] \<and>
   get_percent_of_normal example_round c2_series [[Some 0, Some 20]] 2023 3 True =
     Inr [[NaN, Fin 150]]"
proof -
  have "get_normals c2_series 2023 3 True = Inr [[Some 0, Some 20]]"
    using get_normals_valid [of 2023 3 c2_series True]
    by (simp add: c2_series_def eval_defs numeral_2_eq_2)
  moreover have "sel_time c2_series (anchor 2023 3 True) = Inr [[Some 0, Some 30]]"
    by (simp add: c2_series_def sel_time_def anchor_def)
  moreover have "get_percent_of_normal example_round c2_series [[Some 0, Some 20]] 2023 3 True =
      Inr [[NaN, Fin 150]]"
    using target_datetime [of 2023 3 True]
    by (simp add: get_percent_of_normal_def) (simp add: c2_series_def eval_defs)
  ultimately show ?thesis by simp
qed

lemma nth_map2:
  "i < length xs \<Longrightarrow> i < length ys \<Longrightarrow> map2 f xs ys ! i = f (xs ! i) (ys ! i)"
  by simp

lemma same_shape_row:
  "map length xs = map length ys \<Longrightarrow> i < length xs \<Longrightarrow>
   i < length ys \<and> length (ys ! i) = length (xs ! i)"
  by (metis length_map nth_map)

text \<open>
  Claim C2, amended: when the target anchor is in the series and the normals grid has the
  shape of the target grid, the result has that shape and each cell is the floating-point
  product by 100 of the floating-point quotient of the target cell by the normals cell,
  without clamping: \<open>rnd (q * 100)\<close> for the rounded quotient \<open>q\<close> of \<open>t / n\<close> where the
  normal \<open>n\<close> is a number other than zero, hence exactly 100 where target and normal are
  the same number other than zero (1 and 100 being floating-point numbers); NaN for
  \<open>0 / 0\<close> and where either cell is missing; an infinity for \<open>t / 0\<close> with \<open>t \<noteq> 0\<close>.
\<close>

theorem percent_of_normal_cellwise:
  assumes "1900 \<le> year" "year \<le> 2100" "1 \<le> month" "month \<le> 12"
    and "distinct (map fst (da_steps da))"
    and "(anchor year month snodas, target) \<in> set (da_steps da)"
    and "map length target = map length normals"
    and "i < length target" "j < length (target ! i)"
  shows "\<exists>p. get_percent_of_normal rnd da normals year month snodas = Inr p \<and>
           map length p = map length target \<and>
           (\<forall>t n. target ! i ! j = Some t \<longrightarrow> normals ! i ! j = Some n \<longrightarrow> n \<noteq> 0 \<longrightarrow>
                  p ! i ! j = (case rnd (t / n) of
                                 Fin q \<Rightarrow> rnd (q * 100)
                               | Infinite \<Rightarrow> Infinite
                               | NaN \<Rightarrow> NaN)) \<and>
           (\<forall>v. target ! i ! j = Some v \<longrightarrow> normals ! i ! j = Some v \<longrightarrow> v \<noteq> 0 \<longrightarrow>
                  rnd 1 = Fin 1 \<longrightarrow> rnd 100 = Fin 100 \<longrightarrow> p ! i ! j = Fin 100) \<and>
           (\<forall>t. target ! i ! j = Some t \<longrightarrow> normals ! i ! j = Some 0 \<longrightarrow>
                  p ! i ! j = (if t = 0 then NaN else Infinite)) \<and>
           (target ! i ! j = None \<or> normals ! i ! j = None \<longrightarrow> p ! i ! j = NaN)"
proof -
  let ?p = "map2 (map2 (\<lambda>a b. fmul rnd (fdiv rnd a b) 100)) target normals"
  have res: "get_percent_of_normal rnd da normals year month snodas = Inr ?p"
    using get_percent_of_normal_present [OF assms(1-6), of rnd normals] assms(7)
    by (simp add: percent_of_def)
  have rows: "i < length normals" "j < length (normals ! i)"
    using same_shape_row [OF assms(7,8)] assms(9) by simp_all
  have cell: "?p ! i ! j = fmul rnd (fdiv rnd (target ! i ! j) (normals ! i ! j)) 100"
    using assms(8,9) rows by (simp add: nth_map2)
  have len: "length target = length normals"
    using assms(7) by (metis length_map)
  have shape: "map length ?p = map length target"
  proof (rule nth_equalityI)
    show "length (map length ?p) = length (map length target)" using len by simp
  next
    fix k assume "k < length (map length ?p)"
    then have k: "k < length target" "k < length normals" using len by simp_all
    have "length (normals ! k) = length (target ! k)"
      using same_shape_row [OF assms(7) k(1)] by simp
    then show "map length ?p ! k = map length target ! k"
      using k by simp
  qed
  have fin: "\<forall>t n. target ! i ! j = Some t \<longrightarrow> normals ! i ! j = Some n \<longrightarrow> n \<noteq> 0 \<longrightarrow>
      ?p ! i ! j = (case rnd (t / n) of
                      Fin q \<Rightarrow> rnd (q * 100) | Infinite \<Rightarrow> Infinite | NaN \<Rightarrow> NaN)"
    unfolding cell by (simp add: fdiv_def fmul_def split: fval.splits)
  have same: "\<forall>v. target ! i ! j = Some v \<longrightarrow> normals ! i ! j = Some v \<longrightarrow> v \<noteq> 0 \<longrightarrow>
      rnd 1 = Fin 1 \<longrightarrow> rnd 100 = Fin 100 \<longrightarrow> ?p ! i ! j = Fin 100"
    unfolding cell by (simp add: fdiv_def fmul_def)
  have zero: "\<forall>t. target ! i ! j = Some t \<longrightarrow> normals ! i ! j = Some 0 \<longrightarrow>
      ?p ! i ! j = (if t = 0 then NaN else Infinite)"
    unfolding cell by (simp add: fdiv_def fmul_def)
  have missing: "target ! i ! j = None \<or> normals ! i ! j = None \<longrightarrow> ?p ! i ! j = NaN"
    unfolding cell by (auto simp: fdiv_def fmul_def split: option.splits)
  show ?thesis
    using res shape fin same zero missing by (intro exI [of _ ?p] conjI)
qed

theorem percent_of_normal_cellwise_witness:
  "(1900::int) \<le> 2023 \<and> (2023::int) \<le> 2100 \<and> (1::int) \<le> 3 \<and> (3::int) \<le> 12 \<and>
   distinct (map fst (da_steps c2_series)) \<and>
   (anchor 2023 3 True, [[Some 0, Some 30]]) \<in> set (da_steps c2_series) \<and>
   map length [[Some 0, Some (30::real)]] = map length [[Some 0, Some (20::real)]] \<and>
   [[Some 0, Some 30]] ! 0 ! 1 = Some (30::real) \<and> [[Some 0, Some 20]] ! 0 ! 1 = Some (20::real) \<and>
   example_round 1 = Fin 1 \<and> example_round 100 = Fin 100 \<and>
   (\<exists>p. get_percent_of_normal example_round c2_series [[Some 0, Some 20]] 2023 3 True = Inr p \<and>
        p ! 0 ! 1 = Fin 150)"
proof -
  have dist: "distinct (map fst (da_steps c2_series))"
    by (simp add: c2_series_def anchor_def)
  have mem: "(anchor 2023 3 True, [[Some 0, Some 30]]) \<in> set (da_steps c2_series)"
    by (simp add: c2_series_def)
  have r: "example_round 1 = Fin 1" "example_round 100 = Fin 100"
    "example_round (30 / 20) = Fin (3 / 2)" "example_round (3 / 2 * 100) = Fin 150"
    by (simp_all add: example_round_def)
  have "\<exists>p. get_percent_of_normal example_round c2_series [[Some 0, Some 20]] 2023 3 True = Inr p \<and>
        p ! 0 ! 1 = Fin 150"
    using percent_of_normal_cellwise [of 2023 3 c2_series True "[[Some 0, Some 30]]"
        "[[Some 0, Some 20]]" 0 1 example_round] dist mem r(3,4)
    by auto
  then show ?thesis using dist mem r(1,2) by simp
qed

subsection \<open>Numerals: \<open>int(str(n)) = n\<close>\<close>

lemma digit_cases:
  assumes "d < (10::nat)"
  shows "d = 0 \<or> d = 1 \<or> d = 2 \<or> d = 3 \<or> d = 4 \<or> d = 5 \<or> d = 6 \<or> d = 7 \<or> d = 8 \<or> d = 9"
  using assms by arith

lemma digit_code_point:
  assumes "d < 10"
  shows "(of_char (''0123456789'' ! d) :: nat) = 48 + d"
  using digit_cases [OF assms] by auto

lemma digit_char:
  assumes "d < 10"
  shows "digit_val (48 + d) = Some d"
    and "48 + d \<noteq> (95::nat)"
    and "48 + d \<noteq> (45::nat)"
    and "48 + d \<noteq> (43::nat)"
    and "\<not> is_space (48 + d)"
    and "48 + d < (128::nat)"
  using assms by (auto simp: digit_val_def is_space_def)

lemma ustr_str_nat:
  "ustr (str_nat n) =
     (if n < 10 then [48 + n] else ustr (str_nat (n div 10)) @ [48 + n mod 10])"
proof (cases "n < 10")
  case True
  then show ?thesis
    by (subst str_nat.simps) (simp add: ustr_def digit_code_point)
next
  case False
  have "n mod 10 < 10" by simp
  then show ?thesis
    using False by (subst str_nat.simps) (simp add: ustr_def digit_code_point)
qed

lemma str_nat_digits:
  "ustr (str_nat n) \<noteq> [] \<and> (\<forall>c \<in> set (ustr (str_nat n)). \<exists>d < 10. c = 48 + d)"
proof (induction n rule: str_nat.induct)
  case (1 n)
  show ?case
  proof (cases "n < 10")
    case True
    then show ?thesis by (subst (1 2) ustr_str_nat) auto
  next
    case False
    have last: "\<exists>d<10. 48 + n mod 10 = 48 + d"
      by (rule exI [of _ "n mod 10"]) simp
    have eq: "ustr (str_nat n) = ustr (str_nat (n div 10)) @ [48 + n mod 10]"
      using False by (subst ustr_str_nat) simp
    show ?thesis
      unfolding eq using 1 [OF False] last by auto
  qed
qed

lemma parse_digits_str_nat:
  "parse_digits need acc (ustr (str_nat n) @ cs) =
   parse_digits False (acc * 10 ^ length (ustr (str_nat n)) + n) cs"
proof (induction n arbitrary: need acc cs rule: str_nat.induct)
  case (1 n)
  show ?case
  proof (cases "n < 10")
    case True
    then show ?thesis
      by (subst (1 2) ustr_str_nat) (simp add: digit_char mult.commute)
  next
    case False
    have m: "n mod 10 < 10" by simp
    have "parse_digits need acc (ustr (str_nat n) @ cs) =
          parse_digits need acc (ustr (str_nat (n div 10)) @ (48 + n mod 10) # cs)"
      using False by (subst ustr_str_nat) simp
    also have "\<dots> = parse_digits False (acc * 10 ^ length (ustr (str_nat (n div 10))) + n div 10)
                      ((48 + n mod 10) # cs)"
      using 1 [OF False] by simp
    also have "\<dots> = parse_digits False
        (10 * (acc * 10 ^ length (ustr (str_nat (n div 10))) + n div 10) + n mod 10) cs"
      by (simp add: digit_char [OF m])
    also have "10 * (acc * 10 ^ length (ustr (str_nat (n div 10))) + n div 10) + n mod 10 =
               acc * 10 ^ length (ustr (str_nat n)) + n"
      using False by (subst (2) ustr_str_nat) (simp add: algebra_simps)
    finally show ?thesis .
  qed
qed

lemma length_str_nat: "0 < k \<Longrightarrow> n < 10 ^ k \<Longrightarrow> length (ustr (str_nat n)) \<le> k"
proof (induction n arbitrary: k rule: str_nat.induct)
  case (1 n)
  show ?case
  proof (cases "n < 10")
    case True
    then show ?thesis using 1(2) by (subst ustr_str_nat) simp
  next
    case False
    then have k: "1 < k" using 1(3) by (cases "k = 1") (use 1(2) in auto)
    then obtain k' where k': "k = Suc k'" "0 < k'" by (cases k) auto
    have "n div 10 < 10 ^ k'" using 1(3) k' by (simp add: less_mult_imp_div_less mult.commute)
    then have "length (ustr (str_nat (n div 10))) \<le> k'" using 1(1) [OF False k'(2)] by simp
    then show ?thesis using False k' by (subst ustr_str_nat) simp
  qed
qed

lemma to_ascii_str_nat: "to_ascii sp dec (ustr (str_nat n)) = ustr (str_nat n)"
proof -
  have "list_all (\<lambda>ch. ch < 128) (ustr (str_nat n))"
    using str_nat_digits [of n] by (auto simp: list_all_iff)
  then show ?thesis by (simp add: to_ascii_def)
qed

lemma strip_str_nat: "strip (ustr (str_nat n)) = ustr (str_nat n)"
proof -
  obtain c cs where cs: "ustr (str_nat n) = c # cs"
    using str_nat_digits [of n] by (cases "ustr (str_nat n)") auto
  have nsp: "\<not> is_space x" if "x \<in> set (ustr (str_nat n))" for x
    using str_nat_digits [of n] that digit_char(5) by auto
  have front: "dropWhile is_space (ustr (str_nat n)) = ustr (str_nat n)"
    using nsp [of c] by (simp add: cs)
  have "rev (ustr (str_nat n)) \<noteq> []" by (simp add: cs)
  then obtain b bs where bs: "rev (ustr (str_nat n)) = b # bs"
    by (cases "rev (ustr (str_nat n))") auto
  have "b \<in> set (ustr (str_nat n))" using bs by (metis list.set_intros(1) set_rev)
  then have rear: "dropWhile is_space (rev (ustr (str_nat n))) = rev (ustr (str_nat n))"
    using nsp [of b] by (simp add: bs)
  show ?thesis by (simp add: strip_def front rear)
qed

lemma py_int_str_nat:
  assumes "n < 10000"
  shows "py_int sp dec (ustr (str_nat n)) = Inr (int n)"
proof -
  obtain c cs where cs: "ustr (str_nat n) = c # cs"
    using str_nat_digits [of n] by (cases "ustr (str_nat n)") auto
  have "c \<in> set (ustr (str_nat n))" by (simp add: cs)
  then obtain d where d: "d < 10" "c = 48 + d"
    using str_nat_digits [of n] by auto
  have sign: "c \<noteq> 45" "c \<noteq> 43"
    using digit_char(3,4) [OF d(1)] d(2) by simp_all
  have "length (filter (\<lambda>c. digit_val c \<noteq> None) (ustr (str_nat n))) \<le> length (ustr (str_nat n))"
    by simp
  also have "\<dots> \<le> 4" using length_str_nat [of 4 n] assms by simp
  finally have few: "\<not> 4300 < length (filter (\<lambda>c. digit_val c \<noteq> None) (ustr (str_nat n)))"
    by simp
  have parse: "parse_digits True 0 (ustr (str_nat n)) = Some n"
    using parse_digits_str_nat [of True 0 n "[]"] by simp
  have first: "hd (ustr (str_nat n)) = c" by (simp add: cs)
  show ?thesis
    unfolding py_int_def to_ascii_str_nat strip_str_nat Let_def
    using sign few parse by (simp add: first)
qed

lemma py_int_str_int:
  assumes "0 \<le> i" "i \<le> 9999"
  shows "py_int sp dec (ustr (str_int i)) = Inr i"
proof -
  have "nat i < 10000" using assms by simp
  then show ?thesis
    using py_int_str_nat [of "nat i"] assms by (simp add: str_int_def)
qed

lemma py_int_error: "py_int sp dec s = Inl e \<Longrightarrow> e = ValueError"
  by (auto simp: py_int_def Let_def split: if_splits option.splits)

lemma str_int_nonempty: "ustr (str_int i) \<noteq> []"
  using str_nat_digits by (simp add: str_int_def ustr_def)

text \<open>
  Two lines that tell \<open>int\<close> from a reading of ASCII alone, in the example environment: a
  no-break space (U+00A0) after the numeral is skipped, the separator U+001F is not, and
  fullwidth digits count.
\<close>

lemma py_int_examples:
  "py_int example_uspace example_udecimal (ustr ''2023'' @ [0xA0]) = Inr 2023"
  "py_int example_uspace example_udecimal (ustr ''2023'' @ [0x1F]) = Inl ValueError"
  "py_int example_uspace example_udecimal [0xFF12, 0xFF10, 0xFF12, 0xFF13] = Inr 2023"
  "py_int example_uspace example_udecimal (ustr '' +2_023 '') = Inr 2023"
  "py_int example_uspace example_udecimal (ustr ''abc'') = Inl ValueError"
  by (simp_all add: py_int_def to_ascii_def strip_def is_space_def digit_val_def ustr_def
      example_uspace_def example_udecimal_def)

subsection \<open>\<open>get_month_year\<close>\<close>

lemma resolve_error: "resolve env d l = Inl e \<Longrightarrow> e = ValueError"
  by (auto simp: resolve_def dest: py_int_error)

lemma get_month_year_bad_year:
  assumes "stdin w = l1 # rest" "\<not> valid_field env 1900 2100 (today_year env) l1"
  shows "get_month_year env w =
         (Inr (None, None),
          w\<lparr>stdin := rest,
            stdout := stdout w @ [year_prompt env, ''Invalid year. Please enter a 4-digit number.'']\<rparr>)"
proof (cases "resolve env (today_year env) l1")
  case (Inl e)
  then have "e = ValueError" by (rule resolve_error)
  then show ?thesis
    using assms(1) Inl
    by (simp add: get_month_year_def input_def print_def resolve_def year_prompt_def Let_def)
next
  case (Inr y)
  then have "y < 1900 \<or> y > 2100" using assms(2) by (auto simp: valid_field_def)
  then show ?thesis
    using assms(1) Inr
    by (auto simp: get_month_year_def input_def print_def resolve_def year_prompt_def Let_def)
qed

lemma get_month_year_bad_month:
  assumes "stdin w = l1 # l2 # rest" "resolve env (today_year env) l1 = Inr y" "1900 \<le> y" "y \<le> 2100"
    "\<not> valid_field env 1 12 (today_month env) l2"
  shows "get_month_year env w =
         (Inr (None, None),
          w\<lparr>stdin := rest,
            stdout := stdout w @ [year_prompt env, month_prompt env,
              ''Invalid month. Please enter a number from 1 to 12.'']\<rparr>)"
proof (cases "resolve env (today_month env) l2")
  case (Inl e)
  then have "e = ValueError" by (rule resolve_error)
  then show ?thesis
    using assms(1-4) Inl
    by (simp add: get_month_year_def input_def print_def resolve_def year_prompt_def
        month_prompt_def Let_def)
next
  case (Inr m)
  then have "m < 1 \<or> m > 12" using assms(5) by (auto simp: valid_field_def)
  then show ?thesis
    using assms(1-4) Inr
    by (auto simp: get_month_year_def input_def print_def resolve_def year_prompt_def
        month_prompt_def Let_def)
qed

lemma get_month_year_good:
  assumes "stdin w = l1 # l2 # rest" "resolve env (today_year env) l1 = Inr y" "1900 \<le> y" "y \<le> 2100"
    "resolve env (today_month env) l2 = Inr m" "1 \<le> m" "m \<le> 12"
  shows "get_month_year env w =
         (Inr (Some y, Some m),
          w\<lparr>stdin := rest, stdout := stdout w @ [year_prompt env, month_prompt env]\<rparr>)"
  using assms
  by (simp add: get_month_year_def input_def print_def resolve_def year_prompt_def
      month_prompt_def Let_def)

lemma get_month_year_result:
  assumes "get_month_year env w = (Inr (a, b), w1)"
  shows "(a = None \<and> b = None \<or>
          (\<exists>y m. a = Some y \<and> b = Some m \<and> 1900 \<le> y \<and> y \<le> 2100 \<and> 1 \<le> m \<and> m \<le> 12)) \<and>
         contacted w1 = contacted w \<and> files w1 = files w"
  using assms
  by (auto simp: get_month_year_def input_def print_def Let_def
      split: list.splits sum.splits if_splits)


subsection \<open>\<open>main\<close>\<close>

lemma get_dataset_result:
  "fst (get_dataset c p sas env w) = fst (get_dataset c p sas env w')"
  by (simp add: get_dataset_def split: option.splits)

lemma get_dataset_files:
  "get_dataset c p sas env w = (r, w') \<Longrightarrow> files w' = files w \<and> stdout w' = stdout w"
  by (auto simp: get_dataset_def split: option.splits)

lemma month_cases:
  assumes "1 \<le> m" "m \<le> (12::int)"
  shows "m = 1 \<or> m = 2 \<or> m = 3 \<or> m = 4 \<or> m = 5 \<or> m = 6 \<or> m = 7 \<or> m = 8 \<or> m = 9 \<or>
         m = 10 \<or> m = 11 \<or> m = 12"
  using assms by arith

lemma month_str_of_valid:
  assumes "1 \<le> year" "year \<le> 9999" "1 \<le> month" "month \<le> 12"
  shows "month_str_of year month = Inr (spec_month_abbrev month)"
proof -
  have d: "datetime year month 1 0 =
      Inr \<lparr>ts_year = year, ts_month = month, ts_day = 1, ts_hour = 0, ts_subhour = 0\<rparr>"
    using assms by (simp add: datetime_def days_in_month_def)
  have "lower (month_abbr ! nat (month - 1)) = spec_month_abbrev month"
    using month_cases [OF assms(3,4)]
    by (elim disjE) (simp_all add: lower_def lower_char_def month_abbr_def spec_month_abbrev_def)
  then show ?thesis by (simp add: month_str_of_def d)
qed

lemma main_invalid:
  "get_month_year env w = (Inr (None, None), w1) \<Longrightarrow>
   main env w = (None, print ''Exiting due to invalid input.'' w1)"
  by (simp add: main_def)

lemma main_writes:
  assumes "get_month_year env w = (Inr (Some year, Some month), w1)"
    and "1900 \<le> year" "year \<le> 2100" "1 \<le> month" "month \<le> 12"
  shows "(fst (main env w) = None \<longrightarrow>
            (\<exists>rs rc. family_raster env True year month = Inr rs \<and>
                     family_raster env False year month = Inr rc \<and>
                     files (snd (main env w)) =
                       files w1 @ [(spec_filename ''snodas'' year month, rs),
                                   (spec_filename ''copernicus'' year month, rc)])) \<and>
         (fst (main env w) \<noteq> None \<longrightarrow> files (snd (main env w)) = files w1)"
proof -
  have ms: "month_str_of year month = Inr (spec_month_abbrev month)"
    using month_str_of_valid [of year month] assms(2-5) by simp
  show ?thesis
    using assms(1)
    by (auto simp: main_def family_raster_def get_dataset_def ms Let_def print_def
        to_raster_def write_crs_def spec_filename_def
        split: prod.splits sum.splits option.splits)
qed

lemma valid_fieldD:
  "valid_field env lo hi d l \<Longrightarrow> \<exists>v. resolve env d l = Inr v \<and> lo \<le> v \<and> v \<le> hi"
  by (auto simp: valid_field_def split: sum.splits)

text \<open>
  Claim C10: given two lines of input, \<open>get_month_year\<close> returns, and what it returns is
  either \<open>(None, None)\<close> or a year in 1900..2100 with a month in 1..12, never a pair
  with one \<open>None\<close> or a value out of range; and when the year is invalid it returns
  \<open>(None, None)\<close> with the month line still unread and no month prompt printed.
\<close>

theorem get_month_year_all_or_nothing:
  assumes "stdin w = l1 # l2 # rest"
  shows "\<exists>a b w1. get_month_year env w = (Inr (a, b), w1) \<and>
           (a = None \<and> b = None \<or>
            (\<exists>y m. a = Some y \<and> b = Some m \<and> 1900 \<le> y \<and> y \<le> 2100 \<and> 1 \<le> m \<and> m \<le> 12)) \<and>
           (\<not> valid_field env 1900 2100 (today_year env) l1 \<longrightarrow>
              a = None \<and> b = None \<and> stdin w1 = l2 # rest \<and>
              stdout w1 = stdout w @ [year_prompt env,
                                      ''Invalid year. Please enter a 4-digit number.''])"
proof (cases "valid_field env 1900 2100 (today_year env) l1")
  case False
  show ?thesis
    using get_month_year_bad_year [OF assms False] by simp
next
  case True
  then obtain y where y: "resolve env (today_year env) l1 = Inr y" "1900 \<le> y" "y \<le> 2100"
    using valid_fieldD by blast
  show ?thesis
  proof (cases "valid_field env 1 12 (today_month env) l2")
    case False
    show ?thesis
      using get_month_year_bad_month [OF assms y False] True by simp
  next
    case vm: True
    then obtain m where m: "resolve env (today_month env) l2 = Inr m" "1 \<le> m" "m \<le> 12"
      using valid_fieldD by blast
    show ?thesis
      using get_month_year_good [OF assms y m] True y m by simp
  qed
qed

text \<open>
  Claim C6: when the year text or the month text does not resolve to a number in its range
  (it does not parse, or lies outside 1900..2100, respectively 1..12),
  \<open>get_month_year\<close> returns \<open>(None, None)\<close> and \<open>main\<close> returns at once: it prints the
  exit message, contacts no store and writes no file.
\<close>

theorem invalid_input_aborts:
  assumes "stdin w = l1 # rest"
    and "\<not> valid_field env 1900 2100 (today_year env) l1 \<or>
         (\<exists>l2 rest'. rest = l2 # rest' \<and> \<not> valid_field env 1 12 (today_month env) l2)"
  shows "\<exists>w1. get_month_year env w = (Inr (None, None), w1) \<and>
           main env w = (None, print ''Exiting due to invalid input.'' w1) \<and>
           contacted (snd (main env w)) = contacted w \<and>
           files (snd (main env w)) = files w"
proof -
  have "\<exists>w1. get_month_year env w = (Inr (None, None), w1)"
  proof (cases "valid_field env 1900 2100 (today_year env) l1")
    case False
    then show ?thesis using get_month_year_bad_year [OF assms(1)] by simp
  next
    case True
    then obtain y where y: "resolve env (today_year env) l1 = Inr y" "1900 \<le> y" "y \<le> 2100"
      using valid_fieldD by blast
    from True assms(2) obtain l2 rest' where
      l2: "rest = l2 # rest'" "\<not> valid_field env 1 12 (today_month env) l2" by blast
    have "stdin w = l1 # l2 # rest'" using assms(1) l2(1) by simp
    then show ?thesis using get_month_year_bad_month [OF _ y l2(2)] by simp
  qed
  then obtain w1 where w1: "get_month_year env w = (Inr (None, None), w1)" ..
  have keep: "contacted w1 = contacted w \<and> files w1 = files w"
    using get_month_year_result [OF w1] by simp
  show ?thesis
    using w1 keep by (simp add: main_invalid print_def)
qed

lemma resolve_typed_default:
  "resolve env d (if l = [] then ustr (str_int d) else l) = resolve env d l"
  by (simp add: resolve_def str_int_nonempty)

lemma get_month_year_fst:
  assumes "stdin w = l1 # l2 # rest"
  shows "fst (get_month_year env w) =
         (case resolve env (today_year env) l1 of
            Inl e \<Rightarrow> Inr (None, None)
          | Inr y \<Rightarrow>
              if y < 1900 \<or> y > 2100 then Inr (None, None)
              else (case resolve env (today_month env) l2 of
                      Inl e \<Rightarrow> Inr (None, None)
                    | Inr m \<Rightarrow> if m < 1 \<or> m > 12 then Inr (None, None)
                               else Inr (Some y, Some m)))"
proof (cases "valid_field env 1900 2100 (today_year env) l1")
  case False
  then show ?thesis
    using get_month_year_bad_year [OF assms False]
    by (auto simp: valid_field_def split: sum.splits)
next
  case True
  then obtain y where y: "resolve env (today_year env) l1 = Inr y" "1900 \<le> y" "y \<le> 2100"
    using valid_fieldD by blast
  show ?thesis
  proof (cases "valid_field env 1 12 (today_month env) l2")
    case False
    then show ?thesis
      using get_month_year_bad_month [OF assms y False] y
      by (auto simp: valid_field_def split: sum.splits)
  next
    case vm: True
    then obtain m where m: "resolve env (today_month env) l2 = Inr m" "1 \<le> m" "m \<le> 12"
      using valid_fieldD by blast
    show ?thesis
      using get_month_year_good [OF assms y m] y m by simp
  qed
qed

text \<open>
  Claim C8: an empty year line stands for the current year and an empty month line for
  the current month, and a default goes through the same validation as typed text: the
  result is the one obtained when each empty line is replaced by the default's numeral
  typed out. For two empty lines it is the pair (current year, current month) when the
  current year lies in 1900..2100, and \<open>(None, None)\<close> otherwise.
\<close>

theorem empty_input_defaults:
  assumes "1 \<le> today_year env" "today_year env \<le> 9999"
    and "1 \<le> today_month env" "today_month env \<le> 12"
    and "stdin w = l1 # l2 # rest"
  shows "resolve env (today_year env) [] = Inr (today_year env) \<and>
         resolve env (today_month env) [] = Inr (today_month env) \<and>
         fst (get_month_year env w) =
           fst (get_month_year env
                  (w\<lparr>stdin := (if l1 = [] then ustr (str_int (today_year env)) else l1) #
                                (if l2 = [] then ustr (str_int (today_month env)) else l2) # rest\<rparr>)) \<and>
         (l1 = [] \<and> l2 = [] \<longrightarrow>
            fst (get_month_year env w) =
              (if 1900 \<le> today_year env \<and> today_year env \<le> 2100
               then Inr (Some (today_year env), Some (today_month env))
               else Inr (None, None)))"
proof -
  have ry: "resolve env (today_year env) [] = Inr (today_year env)"
    using py_int_str_int [of "today_year env"] assms(1,2) by (simp add: resolve_def)
  have rm: "resolve env (today_month env) [] = Inr (today_month env)"
    using py_int_str_int [of "today_month env"] assms(3,4) by (simp add: resolve_def)
  let ?w' = "w\<lparr>stdin := (if l1 = [] then ustr (str_int (today_year env)) else l1) #
                          (if l2 = [] then ustr (str_int (today_month env)) else l2) # rest\<rparr>"
  have w': "stdin ?w' = (if l1 = [] then ustr (str_int (today_year env)) else l1) #
                        (if l2 = [] then ustr (str_int (today_month env)) else l2) # rest"
    by simp
  have same: "fst (get_month_year env w) = fst (get_month_year env ?w')"
    unfolding get_month_year_fst [OF assms(5)] get_month_year_fst [OF w']
      resolve_typed_default ..
  have both: "fst (get_month_year env w) =
      (if 1900 \<le> today_year env \<and> today_year env \<le> 2100
       then Inr (Some (today_year env), Some (today_month env))
       else Inr (None, None))" if "l1 = []" "l2 = []"
    unfolding get_month_year_fst [OF assms(5)] using that ry rm assms(3,4) by auto
  show ?thesis using ry rm same both by blast
qed

lemmas text_eval = valid_field_def resolve_def py_int_def to_ascii_def strip_def is_space_def
  digit_val_def ustr_def

theorem get_month_year_all_or_nothing_witness:
  "stdin (world0 [ustr ''2023'' @ [0x1F], ustr ''5'']) =
     (ustr ''2023'' @ [0x1F]) # ustr ''5'' # [] \<and>
   \<not> valid_field example_env 1900 2100 (today_year example_env) (ustr ''2023'' @ [0x1F]) \<and>
   (\<exists>w1. get_month_year example_env (world0 [ustr ''2023'' @ [0x1F], ustr ''5'']) =
           (Inr (None, None), w1) \<and>
         stdin w1 = [ustr ''5''])"
proof -
  have s: "stdin (world0 [ustr ''2023'' @ [0x1F], ustr ''5'']) =
      (ustr ''2023'' @ [0x1F]) # ustr ''5'' # []"
    by (simp add: world0_def)
  have bad: "\<not> valid_field example_env 1900 2100 (today_year example_env) (ustr ''2023'' @ [0x1F])"
    by (simp add: text_eval example_env_def)
  show ?thesis
    using get_month_year_all_or_nothing [OF s, of example_env] s bad by auto
qed

text \<open>
  A year followed by a no-break space is a valid year, as for \<open>int\<close>: both lines are read
  and the pair is returned.
\<close>

lemma example_no_break_space:
  "fst (get_month_year example_env (world0 [ustr ''2023'' @ [0xA0], ustr ''3''])) =
     Inr (Some 2023, Some 3)"
proof -
  have s: "stdin (world0 [ustr ''2023'' @ [0xA0], ustr ''3'']) =
      (ustr ''2023'' @ [0xA0]) # ustr ''3'' # []"
    by (simp add: world0_def)
  have y: "resolve example_env (today_year example_env) (ustr ''2023'' @ [0xA0]) = Inr 2023"
    by (simp add: text_eval example_env_def example_uspace_def example_udecimal_def)
  have m: "resolve example_env (today_month example_env) (ustr ''3'') = Inr 3"
    by (simp add: text_eval)
  show ?thesis
    using get_month_year_good [OF s y _ _ m] by simp
qed

theorem invalid_input_aborts_witness:
  "stdin (world0 [ustr ''2023'' @ [0x1F], ustr ''3'']) = (ustr ''2023'' @ [0x1F]) # [ustr ''3''] \<and>
   \<not> valid_field example_env 1900 2100 (today_year example_env) (ustr ''2023'' @ [0x1F]) \<and>
   fst (main example_env (world0 [ustr ''2023'' @ [0x1F], ustr ''3''])) = None \<and>
   contacted (snd (main example_env (world0 [ustr ''2023'' @ [0x1F], ustr ''3'']))) = [] \<and>
   files (snd (main example_env (world0 [ustr ''2023'' @ [0x1F], ustr ''3'']))) = []"
proof -
  let ?w = "world0 [ustr ''2023'' @ [0x1F], ustr ''3'']"
  have s: "stdin ?w = (ustr ''2023'' @ [0x1F]) # [ustr ''3'']"
    by (simp add: world0_def)
  have bad: "\<not> valid_field example_env 1900 2100 (today_year example_env) (ustr ''2023'' @ [0x1F])"
    by (simp add: text_eval example_env_def)
  have "contacted ?w = []" "files ?w = []"
    by (simp_all add: world0_def)
  then show ?thesis
    using invalid_input_aborts [OF s, of example_env] s bad by auto
qed

theorem empty_input_defaults_witness:
  "1 \<le> today_year example_env \<and> today_year example_env \<le> 9999 \<and>
   1 \<le> today_month example_env \<and> today_month example_env \<le> 12 \<and>
   stdin (world0 [[], []]) = [] # [] # [] \<and>
   fst (get_month_year example_env (world0 [[], []])) = Inr (Some 2024, Some 7)"
proof -
  have t: "today_year example_env = 2024" "today_month example_env = 7"
    by (simp_all add: example_env_def)
  have s: "stdin (world0 [[], []]) = [] # [] # []"
    by (simp add: world0_def)
  have a: "1 \<le> today_year example_env" "today_year example_env \<le> 9999"
    "1 \<le> today_month example_env" "today_month example_env \<le> 12"
    by (simp_all add: t)
  have "[] = ([]::string) \<and> [] = ([]::string) \<longrightarrow>
      fst (get_month_year example_env (world0 [[], []])) =
        (if 1900 \<le> today_year example_env \<and> today_year example_env \<le> 2100
         then Inr (Some (today_year example_env), Some (today_month example_env))
         else Inr (None, None))"
    using empty_input_defaults [OF a s] by blast
  then show ?thesis
    using a s by (simp add: t)
qed

text \<open>
  Claim C7, amended: after valid input, when the fetch of either dataset family fails,
  \<open>main\<close> ends with an exception and writes no raster for either family; when it is the
  SNODAS fetch, the exception is that of the fetch and the only store contacted is SNODAS.
\<close>

theorem fetch_failure_aborts_run:
  assumes "get_month_year env w = (Inr (Some year, Some month), w1)"
    and "fst (get_dataset ''snodas-v1'' ''snodas.zarr'' (SNODAS_SAS env) env wa) = Inl e \<or>
         fst (get_dataset ''copernicus'' ''copernicus.zarr'' (COPERNICUS_SAS env) env wb) = Inl e"
  shows "fst (main env w) \<noteq> None \<and> files (snd (main env w)) = files w \<and>
         (fst (get_dataset ''snodas-v1'' ''snodas.zarr'' (SNODAS_SAS env) env wa) = Inl e \<longrightarrow>
            fst (main env w) = Some e \<and>
            set (contacted (snd (main env w))) \<subseteq> set (contacted w) \<union> {''snodas-v1''})"
proof -
  have keep: "contacted w1 = contacted w" "files w1 = files w"
    using get_month_year_result [OF assms(1)] by simp_all
  obtain r2 w2 where g2: "get_dataset ''snodas-v1'' ''snodas.zarr'' (SNODAS_SAS env) env w1 = (r2, w2)"
    by (cases "get_dataset ''snodas-v1'' ''snodas.zarr'' (SNODAS_SAS env) env w1")
  have r2: "r2 = fst (get_dataset ''snodas-v1'' ''snodas.zarr'' (SNODAS_SAS env) env wa)"
    using g2 get_dataset_result [of "''snodas-v1''" "''snodas.zarr''" "SNODAS_SAS env" env w1 wa]
    by simp
  have w2: "files w2 = files w" "set (contacted w2) \<subseteq> set (contacted w) \<union> {''snodas-v1''}"
    using g2 keep by (auto simp: get_dataset_def split: option.splits)
  show ?thesis
  proof (cases r2)
    case (Inl e2)
    then have "main env w = (Some e2, w2)"
      using assms(1) g2 by (simp add: main_def)
    then show ?thesis using w2 Inl r2 by auto
  next
    case (Inr ds)
    then have cop: "fst (get_dataset ''copernicus'' ''copernicus.zarr'' (COPERNICUS_SAS env) env wb) = Inl e"
      using assms(2) r2 by auto
    obtain r4 w4 where g4: "get_dataset ''copernicus'' ''copernicus.zarr'' (COPERNICUS_SAS env) env
        (print ''snodas dataset loaded'' w2) = (r4, w4)"
      by (cases "get_dataset ''copernicus'' ''copernicus.zarr'' (COPERNICUS_SAS env) env
        (print ''snodas dataset loaded'' w2)")
    have r4: "r4 = Inl e"
      using g4 cop get_dataset_result [of "''copernicus''" "''copernicus.zarr''"
          "COPERNICUS_SAS env" env "print ''snodas dataset loaded'' w2" wb]
      by simp
    have w4: "files w4 = files w"
      using get_dataset_files [OF g4] w2(1) by (simp add: print_def)
    have "fst (main env w) \<noteq> None \<and> files (snd (main env w)) = files w"
      using assms(1) g2 Inr g4 r4 w4 w2(1)
      by (simp add: main_def Let_def print_def split: option.splits)
    then show ?thesis using Inr r2 by auto
  qed
qed

lemma str_int_2024: "str_int 2024 = ''2024''" "str_int 7 = ''7''" "str_int 2023 = ''2023''"
  by (simp_all add: str_int_def str_nat.simps)

lemma example_input:
  assumes "today_year env = 2024" "today_month env = 7"
  shows "get_month_year env (world0 [ustr ''2023'', ustr ''3'']) = (Inr (Some 2023, Some 3), after_prompts)"
proof -
  have s: "stdin (world0 [ustr ''2023'', ustr ''3'']) = ustr ''2023'' # ustr ''3'' # []"
    by (simp add: world0_def)
  have y: "resolve env (today_year env) (ustr ''2023'') = Inr 2023"
    by (simp add: text_eval)
  have m: "resolve env (today_month env) (ustr ''3'') = Inr 3"
    by (simp add: text_eval)
  show ?thesis
    using get_month_year_good [OF s y _ _ m] assms
    by (simp add: world0_def after_prompts_def year_prompt_def month_prompt_def str_int_2024)
qed

lemma example_normals:
  "get_normals c2_series 2023 3 True = Inr [[Some 0, Some 20]]"
  "get_normals cop_series 2023 3 False = Inr [[Some 8]]"
  using get_normals_valid [of 2023 3 c2_series True] get_normals_valid [of 2023 3 cop_series False]
  by (simp_all add: c2_series_def cop_series_def eval_defs numeral_2_eq_2)

lemma example_percent:
  "get_percent_of_normal example_round c2_series [[Some 0, Some 20]] 2023 3 True =
     Inr [[NaN, Fin 150]]"
  "get_percent_of_normal example_round cop_series [[Some 8]] 2023 3 False = Inr [[Fin 50]]"
proof -
  have d: "datetime 2023 3 1 5 = Inr (anchor 2023 3 True)"
    "datetime 2023 3 1 0 = Inr (anchor 2023 3 False)"
    using target_datetime [of 2023 3 True] target_datetime [of 2023 3 False] by simp_all
  show "get_percent_of_normal example_round c2_series [[Some 0, Some 20]] 2023 3 True =
      Inr [[NaN, Fin 150]]"
    by (simp add: get_percent_of_normal_def d) (simp add: c2_series_def eval_defs)
  show "get_percent_of_normal example_round cop_series [[Some 8]] 2023 3 False = Inr [[Fin 50]]"
    by (simp add: get_percent_of_normal_def d) (simp add: cop_series_def eval_defs)
qed

lemma example_env_fields:
  "today_year example_env = 2024" "today_month example_env = 7"
  "SNODAS_SAS example_env = Some ''sv=1''" "COPERNICUS_SAS example_env = Some ''sv=2''"
  "\<And>u p. open_zarr example_env u ''snodas-v1'' p =
      Inr (\<lambda>v. if v = ''1034'' then Some c2_series else None)"
  "\<And>u p. open_zarr example_env u ''copernicus'' p =
      Inr (\<lambda>v. if v = ''swe'' then Some cop_series else None)"
  "\<And>da xs ys. sel_xy example_env da xs ys = da"
  "fround example_env = example_round"
  by (simp_all add: example_env_def)

lemma example_family_raster:
  "family_raster example_env True 2023 3 = Inr \<lparr>crs = ''EPSG:3857'', pixels = [[NaN, Fin 150]]\<rparr>"
  "family_raster example_env False 2023 3 = Inr \<lparr>crs = ''EPSG:3857'', pixels = [[Fin 50]]\<rparr>"
  by (simp_all add: family_raster_def example_env_fields example_normals example_percent)

lemma example_main_completes:
  "fst (main example_env (world0 [ustr ''2023'', ustr ''3''])) = None"
proof -
  have ms: "month_str_of 2023 3 = Inr (spec_month_abbrev 3)"
    using month_str_of_valid [of 2023 3] by simp
  show ?thesis
    by (simp add: main_def example_input [OF example_env_fields(1,2)] get_dataset_def
        example_env_fields Let_def example_normals example_percent ms)
qed

text \<open>
  Claim C9: a run that completes for the validated pair (year, month) writes exactly two
  files: the raster of the SNODAS family under \<open>snodas_prcnt_of_norm_{mon}_{year}.tif\<close>
  and the raster of the Copernicus family under
  \<open>copernicus_prcnt_of_norm_{mon}_{year}.tif\<close>, each family's own raster under its own
  name, with the three-letter lower-case month name; for (2023, 3) the regional name is
  \<open>snodas_prcnt_of_norm_mar_2023.tif\<close>.
\<close>

theorem output_filenames:
  assumes "get_month_year env w = (Inr (Some year, Some month), w1)"
    and "fst (main env w) = None"
  shows "1900 \<le> year \<and> year \<le> 2100 \<and> 1 \<le> month \<and> month \<le> 12 \<and>
         (\<exists>rs rc. family_raster env True year month = Inr rs \<and>
                  family_raster env False year month = Inr rc \<and>
                  files (snd (main env w)) =
                    files w @ [(spec_filename ''snodas'' year month, rs),
                               (spec_filename ''copernicus'' year month, rc)]) \<and>
         length (spec_month_abbrev month) = 3 \<and>
         spec_filename ''snodas'' 2023 3 = ''snodas_prcnt_of_norm_mar_2023.tif''"
proof -
  have r: "1900 \<le> year \<and> year \<le> 2100 \<and> 1 \<le> month \<and> month \<le> 12" "files w1 = files w"
    using get_month_year_result [OF assms(1)] by simp_all
  have written: "\<exists>rs rc. family_raster env True year month = Inr rs \<and>
      family_raster env False year month = Inr rc \<and>
      files (snd (main env w)) =
        files w @ [(spec_filename ''snodas'' year month, rs),
                   (spec_filename ''copernicus'' year month, rc)]"
    using main_writes [OF assms(1)] r assms(2) by simp
  have mc: "month = 1 \<or> month = 2 \<or> month = 3 \<or> month = 4 \<or> month = 5 \<or> month = 6 \<or>
      month = 7 \<or> month = 8 \<or> month = 9 \<or> month = 10 \<or> month = 11 \<or> month = 12"
    using month_cases [of month] r(1) by simp
  have len: "length (spec_month_abbrev month) = 3"
    using mc by (elim disjE) (simp_all add: spec_month_abbrev_def)
  have ex: "spec_filename ''snodas'' 2023 3 = ''snodas_prcnt_of_norm_mar_2023.tif''"
    by (simp add: spec_filename_def spec_month_abbrev_def str_int_2024)
  show ?thesis using r(1) written len ex by blast
qed

theorem output_filenames_witness:
  "get_month_year example_env (world0 [ustr ''2023'', ustr ''3'']) =
     (Inr (Some 2023, Some 3), after_prompts) \<and>
   fst (main example_env (world0 [ustr ''2023'', ustr ''3''])) = None \<and>
   files (snd (main example_env (world0 [ustr ''2023'', ustr ''3'']))) =
     [(''snodas_prcnt_of_norm_mar_2023.tif'',
       \<lparr>crs = ''EPSG:3857'', pixels = [[NaN, Fin 150]]\<rparr>),
      (''copernicus_prcnt_of_norm_mar_2023.tif'',
       \<lparr>crs = ''EPSG:3857'', pixels = [[Fin 50]]\<rparr>)]"
proof -
  let ?w = "world0 [ustr ''2023'', ustr ''3'']"
  have f: "files ?w = []"
    by (simp add: world0_def)
  have names: "spec_filename ''snodas'' 2023 3 = ''snodas_prcnt_of_norm_mar_2023.tif''"
    "spec_filename ''copernicus'' 2023 3 = ''copernicus_prcnt_of_norm_mar_2023.tif''"
    by (simp_all add: spec_filename_def spec_month_abbrev_def str_int_2024)
  have "\<exists>rs rc. family_raster example_env True 2023 3 = Inr rs \<and>
      family_raster example_env False 2023 3 = Inr rc \<and>
      files (snd (main example_env ?w)) =
        files ?w @ [(spec_filename ''snodas'' 2023 3, rs),
                    (spec_filename ''copernicus'' 2023 3, rc)]"
    using output_filenames [OF example_input [OF example_env_fields(1,2)] example_main_completes]
    by blast
  then have "files (snd (main example_env ?w)) =
      [(''snodas_prcnt_of_norm_mar_2023.tif'', \<lparr>crs = ''EPSG:3857'', pixels = [[NaN, Fin 150]]\<rparr>),
       (''copernicus_prcnt_of_norm_mar_2023.tif'', \<lparr>crs = ''EPSG:3857'', pixels = [[Fin 50]]\<rparr>)]"
    by (auto simp: example_family_raster f names)
  then show ?thesis
    using example_input [OF example_env_fields(1,2)] example_main_completes by simp
qed

text \<open>
  Claim C7 as stated (a failed fetch aborts only its own branch) fails: \<open>main\<close> catches
  nothing. When the SNODAS store is unreachable while the Copernicus store is fine, the
  run ends with the exception after contacting SNODAS only, and no raster is written,
  the Copernicus one included.
\<close>

theorem snodas_down_counterexample:
  "\<not> isl (open_zarr snodas_down_env ''https://climatedataprod.blob.core.windows.net?sv=2''
            ''copernicus'' ''copernicus.zarr'') \<and>
   fst (main snodas_down_env (world0 [ustr ''2023'', ustr ''3''])) = Some DataSourceUnavailable \<and>
   contacted (snd (main snodas_down_env (world0 [ustr ''2023'', ustr ''3'']))) = [''snodas-v1''] \<and>
   files (snd (main snodas_down_env (world0 [ustr ''2023'', ustr ''3'']))) = []"
proof -
  have t: "today_year snodas_down_env = 2024" "today_month snodas_down_env = 7"
    by (simp_all add: snodas_down_env_def example_env_def)
  have env: "SNODAS_SAS snodas_down_env = Some ''sv=1''"
    "\<And>u p. open_zarr snodas_down_env u ''snodas-v1'' p = Inl DataSourceUnavailable"
    "\<And>u p. \<not> isl (open_zarr snodas_down_env u ''copernicus'' p)"
    by (simp_all add: snodas_down_env_def example_env_def)
  have "main snodas_down_env (world0 [ustr ''2023'', ustr ''3'']) =
        (Some DataSourceUnavailable, after_prompts\<lparr>contacted := [''snodas-v1'']\<rparr>)"
    by (simp add: main_def example_input [OF t] get_dataset_def env) (simp add: after_prompts_def)
  then show ?thesis using env(3) by (simp add: after_prompts_def)
qed

theorem fetch_failure_aborts_run_witness:
  "get_month_year copernicus_down_env (world0 [ustr ''2023'', ustr ''3'']) =
     (Inr (Some 2023, Some 3), after_prompts) \<and>
   \<not> isl (fst (get_dataset ''snodas-v1'' ''snodas.zarr'' (SNODAS_SAS copernicus_down_env)
                 copernicus_down_env after_prompts)) \<and>
   fst (get_dataset ''copernicus'' ''copernicus.zarr'' (COPERNICUS_SAS copernicus_down_env)
          copernicus_down_env after_prompts) = Inl DataSourceUnavailable \<and>
   fst (main copernicus_down_env (world0 [ustr ''2023'', ustr ''3''])) \<noteq> None \<and>
   files (snd (main copernicus_down_env (world0 [ustr ''2023'', ustr ''3'']))) = []"
proof -
  have t: "today_year copernicus_down_env = 2024" "today_month copernicus_down_env = 7"
    by (simp_all add: copernicus_down_env_def example_env_def)
  have up: "\<not> isl (fst (get_dataset ''snodas-v1'' ''snodas.zarr''
      (SNODAS_SAS copernicus_down_env) copernicus_down_env after_prompts))"
    by (simp add: get_dataset_def copernicus_down_env_def example_env_def)
  have down: "fst (get_dataset ''copernicus'' ''copernicus.zarr''
      (COPERNICUS_SAS copernicus_down_env) copernicus_down_env after_prompts) =
      Inl DataSourceUnavailable"
    by (simp add: get_dataset_def copernicus_down_env_def example_env_def)
  have f: "files (world0 [ustr ''2023'', ustr ''3'']) = []"
    by (simp add: world0_def)
  show ?thesis
    using fetch_failure_aborts_run [OF example_input [OF t],
        of after_prompts DataSourceUnavailable after_prompts]
      example_input [OF t] up down
    by (simp add: f)
qed


end
